theory Spec2Isabelle
  imports Complex_Main "HOL-Library.Log_Nat"
begin

section \<open>The profile connection scan of gtfspy.routing.connection_scan_profile\<close>

text \<open>
  The module defines one class, \<^verbatim>\<open>ConnectionScanProfiler\<close>, with the methods
  \<^verbatim>\<open>__init__\<close>, \<^verbatim>\<open>_run\<close>, \<^verbatim>\<open>_scan_footpaths_to_departure_stop\<close> and the property
  \<^verbatim>\<open>stop_profiles\<close>. The instance is a record, every method takes the instance and
  returns it updated, and a raised exception is an outcome that still carries the
  instance as the exception left it.
\<close>

subsection \<open>Numbers\<close>

text \<open>
  A finite Python number, an \<^verbatim>\<open>int\<close> or a \<^verbatim>\<open>float\<close>, is the rational it denotes;
  comparisons between the two kinds are exact in Python. \<^verbatim>\<open>float("inf")\<close>, the default
  of the trip tracker and the first \<^verbatim>\<open>latest_dep_time\<close>, is a value of its own, above
  every finite number.
\<close>

datatype pynum = Num rat | PosInf

fun num_le :: "pynum \<Rightarrow> pynum \<Rightarrow> bool" where
  "num_le _ PosInf = True"
| "num_le PosInf (Num _) = False"
| "num_le (Num a) (Num b) = (a \<le> b)"

definition num_less :: "pynum \<Rightarrow> pynum \<Rightarrow> bool" where
  "num_less a b = (\<not> num_le b a)"

text \<open>Python's \<^verbatim>\<open>min(a, b)\<close>: the first argument unless the second is smaller.\<close>

definition min_num :: "pynum \<Rightarrow> pynum \<Rightarrow> pynum" where
  "min_num a b = (if num_less b a then b else a)"

subsection \<open>Exceptions\<close>

datatype error = AssertionError | ZeroDivisionError | RuntimeError

subsection \<open>Float arithmetic\<close>

text \<open>
  The walk speed is a \<^verbatim>\<open>float\<close> by the docstring of \<^verbatim>\<open>__init__\<close>, so line 124,
  \<^verbatim>\<open>connection_dep_time - distance_shape / self._walk_speed\<close>, is arithmetic on IEEE 754
  doubles: each operand that is an \<^verbatim>\<open>int\<close> is converted, and each operation rounds
  its exact result to the nearest double, a tie going to the even significand. A result
  may be infinite, so a float is a rational or one of the two infinities, in
  their order.
\<close>

datatype pyfloat = MinusInf | Finite rat | PlusInf

instantiation pyfloat :: linorder
begin

fun less_eq_pyfloat :: "pyfloat \<Rightarrow> pyfloat \<Rightarrow> bool" where
  "less_eq_pyfloat MinusInf y = True"
| "less_eq_pyfloat x PlusInf = True"
| "less_eq_pyfloat (Finite a) (Finite b) = (a \<le> b)"
| "less_eq_pyfloat x y = False"

definition less_pyfloat :: "pyfloat \<Rightarrow> pyfloat \<Rightarrow> bool" where
  "less_pyfloat x y = (x \<le> y \<and> \<not> y \<le> x)"

instance
proof
  fix x y z :: pyfloat
  show "(x < y) = (x \<le> y \<and> \<not> y \<le> x)" by (simp add: less_pyfloat_def)
  show "x \<le> x" by (cases x) simp_all
  show "x \<le> y \<Longrightarrow> y \<le> z \<Longrightarrow> x \<le> z" by (cases x; cases y; cases z) simp_all
  show "x \<le> y \<Longrightarrow> y \<le> x \<Longrightarrow> x = y" by (cases x; cases y) simp_all
  show "x \<le> y \<or> y \<le> x" by (cases x; cases y) auto
qed

end

text \<open>
  Powers of two with an integer exponent, and the exponent of a positive rational
  \<open>x\<close>: the \<open>e\<close> with \<open>2 ^ e \<le> x < 2 ^ (e + 1)\<close>.
\<close>

definition two_pow :: "int \<Rightarrow> rat" where
  "two_pow k = (if 0 \<le> k then 2 ^ nat k else 1 / 2 ^ nat (- k))"

definition floor_log2 :: "rat \<Rightarrow> int" where
  "floor_log2 x = (if 1 \<le> x then bitlen \<lfloor>x\<rfloor> - 1 else - bitlen (\<lceil>1 / x\<rceil> - 1))"

text \<open>The nearest integer, a tie going to the even one.\<close>

definition round_half_even :: "rat \<Rightarrow> int" where
  "round_half_even x =
     (let f = \<lfloor>x\<rfloor>; r = x - of_int f
      in if r < 1 / 2 then f else if 1 / 2 < r then f + 1
         else if even f then f else f + 1)"

text \<open>
  \<^verbatim>\<open>float(x)\<close> for an operand: the nearest number with a significand of 53 bits. It
  is the identity on a double and the conversion of an \<^verbatim>\<open>int\<close>, and a walk speed
  given as \<open>7 / 10\<close> stands for the double that \<^verbatim>\<open>0.7\<close> denotes. An \<^verbatim>\<open>int\<close> of
  magnitude \<open>2 ^ 1024\<close> or more has no double (Python raises \<^verbatim>\<open>OverflowError\<close>); no
  unix time or walking distance in metres is of that size, and such operands are not
  modelled.
\<close>

definition to_float :: "rat \<Rightarrow> rat" where
  "to_float x =
     (if x = 0 then 0
      else let u = two_pow (floor_log2 \<bar>x\<bar> - 52)
           in of_int (round_half_even (x / u)) * u)"

text \<open>
  The double that an operation returns for the exact result \<open>x\<close>: rounded to 53 bits
  above \<open>2 ^ (- 1022)\<close>, to a multiple of \<open>2 ^ (- 1074)\<close> below, and infinite when
  the rounded magnitude reaches \<open>2 ^ 1024\<close>.
\<close>

definition round_to_float :: "rat \<Rightarrow> pyfloat" where
  "round_to_float x =
     (if x = 0 then Finite 0
      else let u = two_pow (max (floor_log2 \<bar>x\<bar>) (- 1022) - 52);
               r = of_int (round_half_even (x / u)) * u
           in if two_pow 1024 \<le> r then PlusInf
              else if r \<le> - two_pow 1024 then MinusInf
              else Finite r)"

text \<open>
  \<^verbatim>\<open>a / b\<close> with a float among the operands: both are converted, a zero divisor
  raises \<^verbatim>\<open>ZeroDivisionError\<close>, and the exact quotient is rounded.
\<close>

definition float_quotient :: "rat \<Rightarrow> rat \<Rightarrow> pyfloat" where
  "float_quotient a b = round_to_float (to_float a / to_float b)"

definition float_truediv :: "rat \<Rightarrow> rat \<Rightarrow> error + pyfloat" where
  "float_truediv a b =
     (if to_float b = 0 then Inl ZeroDivisionError else Inr (float_quotient a b))"

text \<open>\<^verbatim>\<open>a - q\<close> with a float \<open>q\<close>: \<open>a\<close> is converted and the exact difference rounded.\<close>

fun float_sub :: "rat \<Rightarrow> pyfloat \<Rightarrow> pyfloat" where
  "float_sub a (Finite q) = round_to_float (to_float a - q)"
| "float_sub a PlusInf = MinusInf"
| "float_sub a MinusInf = PlusInf"

subsection \<open>Connections, Pareto tuples and node profiles\<close>

text \<open>
  Modelled from the spec: \<^verbatim>\<open>Connection\<close> of \<^verbatim>\<open>gtfspy.routing.models\<close> is not among the
  sources. The spec gives its five fields; the names are the ones \<^verbatim>\<open>_run\<close> reads.
\<close>

record connection =
  departure_stop :: int
  arrival_stop :: int
  departure_time :: rat
  arrival_time :: rat
  trip_id :: int

text \<open>
  Modelled from the spec: \<^verbatim>\<open>ParetoTuple\<close> of \<^verbatim>\<open>gtfspy.routing.models\<close> is not among the
  sources. It is the pair (departure time, arrival time at the target); the
  selectors carry the prefix \<open>pt\<close> because \<open>departure_time\<close> is the connection's
  field and \<open>arrival_time_target\<close> a parameter of the footpath scan. The departure
  time is a float: the footpath scan computes it. The arrival time is always one that
  \<^verbatim>\<open>_run\<close> has found finite.
\<close>

datatype pareto_tuple =
  ParetoTuple (pt_departure_time: pyfloat) (pt_arrival_time_target: rat)

text \<open>
  Modelled from the spec: the dominance relation of the data model. \<open>x\<close> dominates
  \<open>y\<close> iff it departs no earlier and arrives no later, one of the two strictly.
\<close>

definition dominates :: "pareto_tuple \<Rightarrow> pareto_tuple \<Rightarrow> bool" where
  "dominates x y =
     (pt_departure_time y \<le> pt_departure_time x
      \<and> pt_arrival_time_target x \<le> pt_arrival_time_target y
      \<and> (pt_departure_time y < pt_departure_time x
           \<or> pt_arrival_time_target x < pt_arrival_time_target y))"

text \<open>
  Modelled from the spec: \<^verbatim>\<open>NodeProfile\<close> and \<^verbatim>\<open>IdentityNodeProfile\<close> of
  \<^verbatim>\<open>gtfspy.routing.node_profile\<close> are not among the sources. The ordinary profile owns
  its tuples, kept by increasing departure time; the identity profile of the target
  has none.
\<close>

datatype node_profile = NodeProfile "pareto_tuple list" | IdentityNodeProfile

text \<open>
  Modelled from the spec: the query of section 4.1, the smallest arrival time among the
  tuples departing at or after \<open>t\<close>, unreachable when there is none.
\<close>

fun min_arrival_from :: "pareto_tuple list \<Rightarrow> rat \<Rightarrow> pynum" where
  "min_arrival_from [] t = PosInf"
| "min_arrival_from (p # ps) t =
     (if Finite t \<le> pt_departure_time p
      then min_num (Num (pt_arrival_time_target p)) (min_arrival_from ps t)
      else min_arrival_from ps t)"

text \<open>
  Modelled from the spec: \<^verbatim>\<open>get_earliest_arrival_time_at_target\<close>. The target's
  identity profile answers the queried time unchanged.
\<close>

fun get_earliest_arrival_time_at_target :: "node_profile \<Rightarrow> rat \<Rightarrow> pynum" where
  "get_earliest_arrival_time_at_target IdentityNodeProfile t = Num t"
| "get_earliest_arrival_time_at_target (NodeProfile ts) t = min_arrival_from ts t"

text \<open>
  Modelled from the spec: \<^verbatim>\<open>update_pareto_optimal_tuples\<close>, the merge of section 4.1.
  The candidate is inserted iff no stored tuple dominates it or equals it; the tuples
  it dominates are removed; the boolean tells whether the content changed. On the
  identity profile the merge does nothing and reports no change.
\<close>

fun update_pareto_optimal_tuples ::
  "node_profile \<Rightarrow> pareto_tuple \<Rightarrow> node_profile \<times> bool" where
  "update_pareto_optimal_tuples IdentityNodeProfile c = (IdentityNodeProfile, False)"
| "update_pareto_optimal_tuples (NodeProfile ts) c =
     (if list_ex (\<lambda>t. dominates t c \<or> t = c) ts then (NodeProfile ts, False)
      else (NodeProfile (insort_key pt_departure_time c
                           (filter (\<lambda>t. \<not> dominates c t) ts)), True))"

subsection \<open>The instance\<close>

text \<open>
  The fields \<^verbatim>\<open>__init__\<close> sets, under the source's names with \<open>self\<close> for the leading
  underscore. The two \<^verbatim>\<open>defaultdict\<close>s are partial maps; \<^verbatim>\<open>_has_run\<close> is the flag of the
  base class. The walk network is read only through
  \<^verbatim>\<open>edges_iter(nbunch=[stop], data="distance_shape")\<close>, so it is the function giving,
  for a stop, its edges in iteration order as (neighbour, distance) pairs.
\<close>

record profiler =
  self_target :: int
  self_connections :: "connection list"
  self_start_time :: rat
  self_end_time :: rat
  self_transfer_margin :: rat
  self_walk_network :: "int \<Rightarrow> (int \<times> rat) list"
  self_walk_speed :: rat
  self_trip_min_arrival_time :: "int \<rightharpoonup> pynum"
  self_stop_profiles :: "int \<rightharpoonup> node_profile"
  self_has_run :: bool

datatype outcome = Completed profiler | Aborted error profiler

fun state_of :: "outcome \<Rightarrow> profiler" where
  "state_of (Completed s) = s"
| "state_of (Aborted e s) = s"

fun is_completed :: "outcome \<Rightarrow> bool" where
  "is_completed (Completed s) = True"
| "is_completed (Aborted e s) = False"

text \<open>
  \<^verbatim>\<open>__init__\<close>. Modelled from the spec: \<^verbatim>\<open>AbstractRoutingAlgorithm.__init__\<close> is not
  among the sources; it leaves the completion flag unset.
\<close>

definition init ::
  "connection list \<Rightarrow> int \<Rightarrow> rat \<Rightarrow> rat \<Rightarrow> rat \<Rightarrow> (int \<Rightarrow> (int \<times> rat) list) \<Rightarrow> rat
     \<Rightarrow> profiler" where
  "init transit_events target_stop start_time end_time transfer_margin walk_network
        walk_speed =
     \<lparr> self_target = target_stop,
       self_connections = transit_events,
       self_start_time = start_time,
       self_end_time = end_time,
       self_transfer_margin = transfer_margin,
       self_walk_network = walk_network,
       self_walk_speed = walk_speed,
       self_trip_min_arrival_time = Map.empty,
       self_stop_profiles = [target_stop \<mapsto> IdentityNodeProfile],
       self_has_run = False \<rparr>"

text \<open>
  Subscripting a \<^verbatim>\<open>defaultdict\<close>: a missing key is first stored with the default
  (an empty \<^verbatim>\<open>NodeProfile\<close>, or infinity for a trip), then returned.
\<close>

definition getitem_stop_profiles :: "profiler \<Rightarrow> int \<Rightarrow> node_profile \<times> profiler" where
  "getitem_stop_profiles s k =
     (case self_stop_profiles s k of
        Some p \<Rightarrow> (p, s)
      | None \<Rightarrow> (NodeProfile [],
                 s\<lparr>self_stop_profiles := (self_stop_profiles s)(k \<mapsto> NodeProfile [])\<rparr>))"

definition getitem_trip_min_arrival_time :: "profiler \<Rightarrow> int \<Rightarrow> pynum \<times> profiler" where
  "getitem_trip_min_arrival_time s k =
     (case self_trip_min_arrival_time s k of
        Some v \<Rightarrow> (v, s)
      | None \<Rightarrow> (PosInf,
                 s\<lparr>self_trip_min_arrival_time := (self_trip_min_arrival_time s)(k \<mapsto> PosInf)\<rparr>))"

text \<open>
  The loop of \<^verbatim>\<open>_scan_footpaths_to_departure_stop\<close> over the edges still to visit.
  The division raises \<^verbatim>\<open>ZeroDivisionError\<close> when the walk speed is zero; the profile
  object of the neighbour is updated in place and the answer of its update is dropped.
\<close>

fun scan_footpaths_loop :: "profiler \<Rightarrow> rat \<Rightarrow> rat \<Rightarrow> (int \<times> rat) list \<Rightarrow> outcome" where
  "scan_footpaths_loop s connection_dep_time arrival_time_target [] = Completed s"
| "scan_footpaths_loop s connection_dep_time arrival_time_target
       ((neighbor, distance_shape) # es) =
     (case float_truediv distance_shape (self_walk_speed s) of
        Inl e \<Rightarrow> Aborted e s
      | Inr walk_duration \<Rightarrow>
          let neighbor_dep_time = float_sub connection_dep_time walk_duration;
              pt = ParetoTuple neighbor_dep_time arrival_time_target;
              (profile, s1) = getitem_stop_profiles s neighbor;
              s2 = s1\<lparr>self_stop_profiles :=
                        (self_stop_profiles s1)
                          (neighbor \<mapsto> fst (update_pareto_optimal_tuples profile pt))\<rparr>
          in scan_footpaths_loop s2 connection_dep_time arrival_time_target es)"

definition scan_footpaths_to_departure_stop ::
  "profiler \<Rightarrow> int \<Rightarrow> rat \<Rightarrow> rat \<Rightarrow> outcome" where
  "scan_footpaths_to_departure_stop s connection_dep_stop connection_dep_time
       arrival_time_target =
     scan_footpaths_loop s connection_dep_time arrival_time_target
       (self_walk_network s connection_dep_stop)"

text \<open>
  The body of the \<^verbatim>\<open>for\<close> loop of \<^verbatim>\<open>_run\<close> after the order assertion (lines 96 to 118):
  one connection is scanned.
\<close>

definition scan_connection :: "profiler \<Rightarrow> connection \<Rightarrow> outcome" where
  "scan_connection s c =
     (let (arrival_profile, s1) = getitem_stop_profiles s (arrival_stop c);
          (dep_stop_profile, s2) = getitem_stop_profiles s1 (departure_stop c);
          earliest_arrival_time =
            get_earliest_arrival_time_at_target arrival_profile
              (arrival_time c + self_transfer_margin s2);
          (trip_arrival_time, s3) = getitem_trip_min_arrival_time s2 (trip_id c);
          min_arrival_time = min_num trip_arrival_time earliest_arrival_time
      in case min_arrival_time of
           PosInf \<Rightarrow> Completed s3
         | Num a \<Rightarrow>
             let s4 = (if num_less min_arrival_time trip_arrival_time
                       then s3\<lparr>self_trip_min_arrival_time :=
                                 (self_trip_min_arrival_time s3)
                                   (trip_id c \<mapsto> earliest_arrival_time)\<rparr>
                       else s3);
                 pareto_tuple = ParetoTuple (Finite (departure_time c)) a;
                 (profile', updated_dep_stop) =
                   update_pareto_optimal_tuples dep_stop_profile pareto_tuple;
                 s5 = s4\<lparr>self_stop_profiles :=
                           (self_stop_profiles s4)(departure_stop c \<mapsto> profile')\<rparr>
             in if updated_dep_stop
                then scan_footpaths_to_departure_stop s5 (departure_stop c)
                       (departure_time c) a
                else Completed s5)"

text \<open>
  The \<^verbatim>\<open>for\<close> loop of \<^verbatim>\<open>_run\<close> over the connections still to scan, with the local
  \<^verbatim>\<open>latest_dep_time\<close>. A failed order assertion ends the loop with the instance as
  it is; the \<^verbatim>\<open>isinstance\<close> assertion holds by the type of the list.
\<close>

fun run_loop :: "profiler \<Rightarrow> pynum \<Rightarrow> connection list \<Rightarrow> outcome" where
  "run_loop s latest_dep_time [] = Completed s"
| "run_loop s latest_dep_time (c # cs) =
     (if \<not> num_le (Num (departure_time c)) latest_dep_time then Aborted AssertionError s
      else case scan_connection s c of
             Aborted e s' \<Rightarrow> Aborted e s'
           | Completed s' \<Rightarrow> run_loop s' (Num (departure_time c)) cs)"

text \<open>\<^verbatim>\<open>_run\<close>.\<close>

definition private_run :: "profiler \<Rightarrow> outcome" where
  "private_run s = run_loop s PosInf (self_connections s)"

text \<open>
  Modelled from the spec: \<^verbatim>\<open>AbstractRoutingAlgorithm.run\<close> is not among the sources.
  By section 5 an instance sweeps once: a second start fails, and the completion flag
  is set when \<^verbatim>\<open>_run\<close> has returned.
\<close>

definition run :: "profiler \<Rightarrow> outcome" where
  "run s =
     (if self_has_run s then Aborted RuntimeError s
      else case private_run s of
             Aborted e s' \<Rightarrow> Aborted e s'
           | Completed s' \<Rightarrow> Completed (s'\<lparr>self_has_run := True\<rparr>))"

text \<open>The property \<^verbatim>\<open>stop_profiles\<close>: an assertion on the flag, then the mapping.\<close>

definition stop_profiles :: "profiler \<Rightarrow> error + (int \<rightharpoonup> node_profile)" where
  "stop_profiles s =
     (if \<not> self_has_run s then Inl AssertionError else Inr (self_stop_profiles s))"

subsection \<open>Reading the two mappings\<close>

text \<open>
  What a location's frontier and a trip's tracked value are, whether or not the
  \<^verbatim>\<open>defaultdict\<close> has stored the key yet: the stored value, else the default.
\<close>

definition profile_of :: "profiler \<Rightarrow> int \<Rightarrow> node_profile" where
  "profile_of s k = (case self_stop_profiles s k of Some p \<Rightarrow> p | None \<Rightarrow> NodeProfile [])"

definition trip_of :: "profiler \<Rightarrow> int \<Rightarrow> pynum" where
  "trip_of s k = (case self_trip_min_arrival_time s k of Some v \<Rightarrow> v | None \<Rightarrow> PosInf)"

subsection \<open>Writing the two mappings\<close>

definition set_profile :: "profiler \<Rightarrow> int \<Rightarrow> node_profile \<Rightarrow> profiler" where
  "set_profile s k p = s\<lparr>self_stop_profiles := (self_stop_profiles s)(k \<mapsto> p)\<rparr>"

definition set_trip :: "profiler \<Rightarrow> int \<Rightarrow> pynum \<Rightarrow> profiler" where
  "set_trip s k v = s\<lparr>self_trip_min_arrival_time := (self_trip_min_arrival_time s)(k \<mapsto> v)\<rparr>"

text \<open>
  Two instances agree on everything but the two mappings: the inputs given to
  \<^verbatim>\<open>__init__\<close> and the completion flag.
\<close>

definition same_inputs :: "profiler \<Rightarrow> profiler \<Rightarrow> bool" where
  "same_inputs s s' =
     (self_target s' = self_target s \<and> self_connections s' = self_connections s
      \<and> self_start_time s' = self_start_time s \<and> self_end_time s' = self_end_time s
      \<and> self_transfer_margin s' = self_transfer_margin s
      \<and> self_walk_network s' = self_walk_network s
      \<and> self_walk_speed s' = self_walk_speed s
      \<and> self_has_run s' = self_has_run s)"

subsection \<open>The scan step in the words of the spec\<close>

text \<open>
  Section 4.3, steps 1 to 3, read off the state before the connection is scanned: the
  transfer option is the answer of the arrival location's frontier at the arrival time
  plus the margin, the trip option is the tracker's value, the best arrival their
  minimum.
\<close>

definition transfer_arrival :: "profiler \<Rightarrow> connection \<Rightarrow> pynum" where
  "transfer_arrival s c =
     get_earliest_arrival_time_at_target (profile_of s (arrival_stop c))
       (arrival_time c + self_transfer_margin s)"

definition spec_best_arrival :: "profiler \<Rightarrow> connection \<Rightarrow> pynum" where
  "spec_best_arrival s c = min_num (trip_of s (trip_id c)) (transfer_arrival s c)"

text \<open>
  Section 4.4: \<open>dep - d / walk_speed\<close> as line 124 computes it for a walk speed that is
  not zero.
\<close>

definition walk_departure :: "rat \<Rightarrow> rat \<Rightarrow> rat \<Rightarrow> pyfloat" where
  "walk_departure dep d ws = float_sub dep (float_quotient d ws)"

text \<open>
  Section 4.4: what the frontier \<open>p\<close> of location \<open>X\<close> becomes when the tuple
  \<open>(dep, arr)\<close> is propagated along the edges \<open>es\<close>, one hop, in their order: each
  edge to \<open>X\<close> of distance \<open>d\<close> merges \<open>(walk_departure dep d ws, arr)\<close>, the
  other edges leave \<open>p\<close> alone.
\<close>

fun merged_along_footpaths ::
  "rat \<Rightarrow> rat \<Rightarrow> rat \<Rightarrow> int \<Rightarrow> node_profile \<Rightarrow> (int \<times> rat) list \<Rightarrow> node_profile" where
  "merged_along_footpaths ws dep arr X p [] = p"
| "merged_along_footpaths ws dep arr X p ((n, d) # es) =
     merged_along_footpaths ws dep arr X
       (if n = X
        then fst (update_pareto_optimal_tuples p
                    (ParetoTuple (walk_departure dep d ws) arr))
        else p) es"

text \<open>
  The instance after the three dictionary reads of a scan step, which store the
  defaults of the keys they miss and change nothing else.
\<close>

definition touched :: "profiler \<Rightarrow> connection \<Rightarrow> profiler" where
  "touched s c =
     set_trip
       (set_profile
          (set_profile s (arrival_stop c) (profile_of s (arrival_stop c)))
          (departure_stop c) (profile_of s (departure_stop c)))
       (trip_id c) (trip_of s (trip_id c))"

text \<open>
  The instance after steps 5 and 6 for a finite best arrival \<open>a\<close>: the tracker
  improved, the tuple merged at the departure location, no footpath scanned yet.
\<close>

definition merged_state :: "profiler \<Rightarrow> connection \<Rightarrow> rat \<Rightarrow> profiler" where
  "merged_state s c a =
     set_profile
       (if num_less (spec_best_arrival s c) (trip_of s (trip_id c))
        then set_trip (touched s c) (trip_id c) (transfer_arrival s c)
        else touched s c)
       (departure_stop c)
       (fst (update_pareto_optimal_tuples (profile_of s (departure_stop c))
               (ParetoTuple (Finite (departure_time c)) a)))"

text \<open>
  Sections 4.3 and 4.4 as a list: the tuples that scanning \<open>c\<close> in state \<open>s\<close> merges,
  each with the location whose frontier receives it, in the order of the merges (for a
  walk speed that is not zero), and a frontier after the merges of such a list.
\<close>

definition spec_merges :: "profiler \<Rightarrow> connection \<Rightarrow> (int \<times> pareto_tuple) list" where
  "spec_merges s c =
     (case spec_best_arrival s c of
        PosInf \<Rightarrow> []
      | Num a \<Rightarrow>
          (departure_stop c, ParetoTuple (Finite (departure_time c)) a)
          # (if snd (update_pareto_optimal_tuples (profile_of s (departure_stop c))
                       (ParetoTuple (Finite (departure_time c)) a))
             then map (\<lambda>(n, d).
                         (n, ParetoTuple
                               (walk_departure (departure_time c) d (self_walk_speed s)) a))
                    (self_walk_network s (departure_stop c))
             else []))"

fun merge_all_at :: "int \<Rightarrow> node_profile \<Rightarrow> (int \<times> pareto_tuple) list \<Rightarrow> node_profile" where
  "merge_all_at X p [] = p"
| "merge_all_at X p ((k, t) # ms) =
     merge_all_at X (if k = X then fst (update_pareto_optimal_tuples p t) else p) ms"

subsection \<open>Another query window\<close>

text \<open>
  The instance with another query window, and an outcome with its instance changed.
\<close>

definition with_window :: "rat \<Rightarrow> rat \<Rightarrow> profiler \<Rightarrow> profiler" where
  "with_window a b s = s\<lparr>self_start_time := a, self_end_time := b\<rparr>"

fun map_outcome :: "(profiler \<Rightarrow> profiler) \<Rightarrow> outcome \<Rightarrow> outcome" where
  "map_outcome f (Completed s) = Completed (f s)"
| "map_outcome f (Aborted e s) = Aborted e (f s)"

subsection \<open>Integer times\<close>

text \<open>
  A tuple with an integer arrival time, with an integer departure time, with both; a
  tracked value that is an integer or infinite; a connection with integer times.
\<close>

definition int_arrival :: "pareto_tuple \<Rightarrow> bool" where
  "int_arrival t = (pt_arrival_time_target t \<in> \<int>)"

definition int_departure :: "pareto_tuple \<Rightarrow> bool" where
  "int_departure t =
     (case pt_departure_time t of Finite q \<Rightarrow> q \<in> \<int> | MinusInf \<Rightarrow> False | PlusInf \<Rightarrow> False)"

definition int_tuple :: "pareto_tuple \<Rightarrow> bool" where
  "int_tuple t = (int_departure t \<and> int_arrival t)"

definition int_num :: "pynum \<Rightarrow> bool" where
  "int_num v = (case v of Num a \<Rightarrow> a \<in> \<int> | PosInf \<Rightarrow> True)"

definition int_connection :: "connection \<Rightarrow> bool" where
  "int_connection c = (departure_time c \<in> \<int> \<and> arrival_time c \<in> \<int>)"

text \<open>
  Every tuple of every frontier of the instance has the property \<open>P\<close>; every tracked
  value of the instance is an integer or infinite.
\<close>

definition all_in_profile :: "(pareto_tuple \<Rightarrow> bool) \<Rightarrow> node_profile \<Rightarrow> bool" where
  "all_in_profile P p =
     (case p of NodeProfile ts \<Rightarrow> list_all P ts | IdentityNodeProfile \<Rightarrow> True)"

definition all_tuples :: "(pareto_tuple \<Rightarrow> bool) \<Rightarrow> profiler \<Rightarrow> bool" where
  "all_tuples P s = (\<forall>X. all_in_profile P (profile_of s X))"

definition int_tracker :: "profiler \<Rightarrow> bool" where
  "int_tracker s = (\<forall>T. int_num (trip_of s T))"

text \<open>
  The departure times of the connections are below \<open>2 ^ 52\<close> in magnitude, as every
  unix time is. Every walk edge takes an integer time below \<open>2 ^ 52\<close>, and the float
  division finds it without rounding.
\<close>

definition small_departures :: "connection list \<Rightarrow> bool" where
  "small_departures cs = list_all (\<lambda>c. \<bar>departure_time c\<bar> < 2 ^ 52) cs"

definition exact_integer_walk :: "rat \<Rightarrow> rat \<Rightarrow> bool" where
  "exact_integer_walk d ws =
     (float_quotient d ws = Finite (d / ws) \<and> d / ws \<in> \<int> \<and> \<bar>d / ws\<bar> < 2 ^ 52)"

definition exact_integer_walks :: "(int \<Rightarrow> (int \<times> rat) list) \<Rightarrow> rat \<Rightarrow> bool" where
  "exact_integer_walks w ws = (\<forall>X. list_all (\<lambda>(n, d). exact_integer_walk d ws) (w X))"

subsection \<open>A small network\<close>

text \<open>
  The end-to-end scenario of the spec's section 8, with the target as stop 0, B as
  stop 1 and A as stop 2, and one walk edge of distance 1 from B to A.
\<close>

definition example_walk_network :: "int \<Rightarrow> (int \<times> rat) list" where
  "example_walk_network X = (if X = 1 then [(2, 1)] else [])"

definition example_connection_1 :: connection where
  "example_connection_1 =
     \<lparr>departure_stop = 1, arrival_stop = 0, departure_time = 10, arrival_time = 15,
      trip_id = 1\<rparr>"

definition example_connection_2 :: connection where
  "example_connection_2 =
     \<lparr>departure_stop = 2, arrival_stop = 1, departure_time = 5, arrival_time = 9,
      trip_id = 2\<rparr>"

definition example_profiler :: "rat \<Rightarrow> profiler" where
  "example_profiler margin =
     init [example_connection_1, example_connection_2] 0 0 100 margin
       example_walk_network 2"

text \<open>
  A third connection, departing as late as the first and later than the second, and
  an instance whose sequence is out of order at its third position.
\<close>

definition example_connection_3 :: connection where
  "example_connection_3 =
     \<lparr>departure_stop = 2, arrival_stop = 1, departure_time = 10, arrival_time = 12,
      trip_id = 2\<rparr>"

definition example_unsorted :: profiler where
  "example_unsorted =
     init [example_connection_1, example_connection_2, example_connection_3] 0 0 100 0
       example_walk_network 2"

text \<open>The small network with a walk edge of distance 4, two seconds at speed 2.\<close>

definition example_walk_network_even :: "int \<Rightarrow> (int \<times> rat) list" where
  "example_walk_network_even X = (if X = 1 then [(2, 4)] else [])"

text \<open>
  An instance with no walk edges and margin 2 after two of its three connections: the
  tracker of trip 1 holds 17, and stop 3 is left at 20 to arrive at 32. The third
  connection, of trip 1, reaches stop 3 at 9.
\<close>

definition example_no_walks :: "int \<Rightarrow> (int \<times> rat) list" where
  "example_no_walks X = []"

definition example_connection_4 :: connection where
  "example_connection_4 =
     \<lparr>departure_stop = 3, arrival_stop = 0, departure_time = 20, arrival_time = 30,
      trip_id = 2\<rparr>"

definition example_connection_5 :: connection where
  "example_connection_5 =
     \<lparr>departure_stop = 2, arrival_stop = 3, departure_time = 5, arrival_time = 9,
      trip_id = 1\<rparr>"

definition example_tracked :: profiler where
  "example_tracked =
     state_of
       (run_loop
          (init [example_connection_4, example_connection_1, example_connection_5]
             0 0 100 2 example_no_walks 2)
          PosInf [example_connection_4, example_connection_1])"

text \<open>
  A network walked at speed 0.7, with an edge of distance 7 from stop 1 and one of
  distance 21 from stop 3, both to stop 2, after the first of its two connections.
\<close>

definition example_walk_network_tenths :: "int \<Rightarrow> (int \<times> rat) list" where
  "example_walk_network_tenths X =
     (if X = 1 then [(2, 7)] else if X = 3 then [(2, 21)] else [])"

definition example_connection_6 :: connection where
  "example_connection_6 =
     \<lparr>departure_stop = 3, arrival_stop = 0, departure_time = 40, arrival_time = 50,
      trip_id = 3\<rparr>"

definition example_connection_7 :: connection where
  "example_connection_7 =
     \<lparr>departure_stop = 1, arrival_stop = 0, departure_time = 20, arrival_time = 60,
      trip_id = 4\<rparr>"

definition example_tenths :: profiler where
  "example_tenths =
     state_of
       (scan_connection
          (init [example_connection_6, example_connection_7] 0 0 100 0
             example_walk_network_tenths (7 / 10))
          example_connection_6)"

section \<open>Properties\<close>

subsection \<open>Floats of integers\<close>

lemma two_pow_pos: "0 < two_pow k"
  by (simp add: two_pow_def)

lemma round_half_even_of_int [simp]: "round_half_even (of_int k) = k"
  by (simp add: round_half_even_def)

lemma floor_log2_int_range:
  assumes "1 \<le> x" "x < 2 ^ 53"
  shows "0 \<le> floor_log2 x" "floor_log2 x \<le> 52"
proof -
  have f1: "1 \<le> \<lfloor>x\<rfloor>" using assms(1) by simp
  have "\<lfloor>x\<rfloor> < 2 ^ 53" using assms(2) by (simp add: floor_less_iff)
  then have "bitlen \<lfloor>x\<rfloor> \<le> 53" by (simp add: bitlen_le_iff_power)
  moreover have "1 \<le> bitlen \<lfloor>x\<rfloor>"
    using f1 bitlen_eq_zero_iff [of "\<lfloor>x\<rfloor>"] bitlen_nonneg [of "\<lfloor>x\<rfloor>"] by linarith
  ultimately show "0 \<le> floor_log2 x" "floor_log2 x \<le> 52"
    using assms(1) by (simp_all add: floor_log2_def)
qed

lemma scaled_int:
  assumes "x \<in> \<int>" "0 \<le> e" "e \<le> 52"
  shows "of_int (round_half_even (x / two_pow (e - 52))) * two_pow (e - 52) = x"
proof -
  from assms(1) obtain k where k: "x = of_int k" by (auto elim: Ints_cases)
  have u: "two_pow (e - 52) = 1 / 2 ^ nat (52 - e)"
    using assms(2,3) by (cases "e = 52") (simp_all add: two_pow_def)
  have "x / two_pow (e - 52) = of_int (k * 2 ^ nat (52 - e))"
    unfolding u k by simp
  then have "round_half_even (x / two_pow (e - 52)) = k * 2 ^ nat (52 - e)"
    by (simp only: round_half_even_of_int)
  then show ?thesis unfolding u k by simp
qed

lemma abs_int_ge_1: "x \<in> \<int> \<Longrightarrow> x \<noteq> 0 \<Longrightarrow> 1 \<le> \<bar>x :: rat\<bar>"
  by (auto elim!: Ints_cases)

lemma to_float_int:
  assumes "x \<in> \<int>" "\<bar>x\<bar> < 2 ^ 53"
  shows "to_float x = x"
proof (cases "x = 0")
  case True
  then show ?thesis by (simp add: to_float_def)
next
  case False
  have r: "0 \<le> floor_log2 \<bar>x\<bar>" "floor_log2 \<bar>x\<bar> \<le> 52"
    using floor_log2_int_range [OF abs_int_ge_1 [OF assms(1) False] assms(2)] by simp_all
  show ?thesis
    using False scaled_int [OF assms(1) r] by (simp add: to_float_def Let_def)
qed

lemma round_to_float_int:
  assumes "x \<in> \<int>" "\<bar>x\<bar> < 2 ^ 53"
  shows "round_to_float x = Finite x"
proof (cases "x = 0")
  case True
  then show ?thesis by (simp add: round_to_float_def)
next
  case False
  have r: "0 \<le> floor_log2 \<bar>x\<bar>" "floor_log2 \<bar>x\<bar> \<le> 52"
    using floor_log2_int_range [OF abs_int_ge_1 [OF assms(1) False] assms(2)] by simp_all
  then have m: "max (floor_log2 \<bar>x\<bar>) (- 1022) = floor_log2 \<bar>x\<bar>" by simp
  have "(2 :: rat) ^ 53 \<le> 2 ^ 1024" by (rule power_increasing) simp_all
  then have big: "\<bar>x\<bar> < two_pow 1024"
    using assms(2) by (simp add: two_pow_def)
  then have "\<not> two_pow 1024 \<le> x" "\<not> x \<le> - two_pow 1024" by linarith+
  then show ?thesis
    using False scaled_int [OF assms(1) r]
    by (simp add: round_to_float_def Let_def m)
qed

lemma float_sub_exact:
  assumes "a \<in> \<int>" "\<bar>a\<bar> < 2 ^ 52" "q \<in> \<int>" "\<bar>q\<bar> < 2 ^ 52"
  shows "float_sub a (Finite q) = Finite (a - q)"
proof -
  have "\<bar>a\<bar> < 2 ^ 53" using assms(2) by simp
  then have a: "to_float a = a" using assms(1) by (rule to_float_int [rotated])
  have "\<bar>a - q\<bar> < 2 ^ 53" using assms(2,4) by simp
  moreover have "a - q \<in> \<int>" using assms(1,3) by simp
  ultimately have "round_to_float (a - q) = Finite (a - q)"
    by (rule round_to_float_int [rotated])
  then show ?thesis by (simp add: a)
qed

lemma exact_integer_walk_departure:
  assumes "a \<in> \<int>" "\<bar>a\<bar> < 2 ^ 52" "exact_integer_walk d ws"
  shows "walk_departure a d ws = Finite (a - d / ws)" "a - d / ws \<in> \<int>"
  using assms float_sub_exact [of a "d / ws"]
  by (simp_all add: exact_integer_walk_def walk_departure_def)

subsection \<open>A float is zero only for zero\<close>

lemma two_pow_floor_log2_le:
  assumes "0 < y"
  shows "two_pow (floor_log2 y) \<le> y"
proof (cases "1 \<le> y")
  case True
  then have f1: "0 < \<lfloor>y\<rfloor>" by simp
  have b: "1 \<le> bitlen \<lfloor>y\<rfloor>"
    using f1 bitlen_eq_zero_iff [of "\<lfloor>y\<rfloor>"] bitlen_nonneg [of "\<lfloor>y\<rfloor>"] by linarith
  have "(2 :: int) ^ nat (bitlen \<lfloor>y\<rfloor> - 1) \<le> \<lfloor>y\<rfloor>"
    using bitlen_bounds [OF f1] by simp
  then have "(of_int (2 ^ nat (bitlen \<lfloor>y\<rfloor> - 1)) :: rat) \<le> of_int \<lfloor>y\<rfloor>"
    by (simp only: of_int_le_iff)
  also have "\<dots> \<le> y" by simp
  finally show ?thesis
    using True b by (simp add: floor_log2_def two_pow_def)
next
  case False
  then have y1: "y < 1" by simp
  have "1 < 1 / y" using assms y1 by simp
  then have c2: "2 \<le> \<lceil>1 / y\<rceil>" by (simp add: le_ceiling_iff)
  let ?n = "\<lceil>1 / y\<rceil> - 1"
  have n: "0 < ?n" using c2 by simp
  have b: "1 \<le> bitlen ?n"
    using n bitlen_eq_zero_iff [of ?n] bitlen_nonneg [of ?n] by linarith
  have "?n < 2 ^ nat (bitlen ?n)" using bitlen_bounds [OF n] by simp
  then have "\<lceil>1 / y\<rceil> \<le> 2 ^ nat (bitlen ?n)" by simp
  then have "1 / y \<le> of_int (2 ^ nat (bitlen ?n))"
    by (simp only: ceiling_le_iff)
  then have "1 / y \<le> 2 ^ nat (bitlen ?n)" by simp
  then have "1 \<le> 2 ^ nat (bitlen ?n) * y"
    using assms by (simp add: field_simps)
  then have "1 / 2 ^ nat (bitlen ?n) \<le> y"
    by (simp add: field_simps)
  then show ?thesis
    using False b by (simp add: floor_log2_def two_pow_def)
qed

lemma two_pow_powi: "two_pow k = 2 powi k"
  by (simp add: two_pow_def power_int_def field_simps)

lemma two_pow_add: "two_pow (a + b) = two_pow a * two_pow b"
  by (simp add: two_pow_powi power_int_add)

lemma round_half_even_eq_0: "round_half_even z = 0 \<Longrightarrow> \<bar>z\<bar> \<le> 1 / 2"
  unfolding round_half_even_def Let_def
  by (auto split: if_splits) linarith+

lemma to_float_eq_0_iff: "to_float x = 0 \<longleftrightarrow> x = 0"
proof
  assume z: "to_float x = 0"
  show "x = 0"
  proof (rule ccontr)
    assume nz: "x \<noteq> 0"
    let ?u = "two_pow (floor_log2 \<bar>x\<bar> - 52)"
    have u: "0 < ?u" by (rule two_pow_pos)
    from z nz u have "round_half_even (x / ?u) = 0"
      by (simp add: to_float_def Let_def)
    then have h: "\<bar>x / ?u\<bar> \<le> 1 / 2" by (rule round_half_even_eq_0)
    have "two_pow (floor_log2 \<bar>x\<bar>) \<le> \<bar>x\<bar>"
      using nz by (intro two_pow_floor_log2_le) simp
    moreover have "two_pow (floor_log2 \<bar>x\<bar>) = 2 ^ 52 * ?u"
      using two_pow_add [of 52 "floor_log2 \<bar>x\<bar> - 52"] by (simp add: two_pow_def)
    ultimately have "2 ^ 52 * ?u \<le> \<bar>x\<bar>" by simp
    then have "2 ^ 52 \<le> \<bar>x\<bar> / ?u" using u by (simp add: field_simps)
    then have "2 ^ 52 \<le> \<bar>x / ?u\<bar>" using u by simp
    from this h have "(2 :: rat) ^ 52 \<le> 1 / 2" by (rule order_trans)
    then show False by simp
  qed
next
  assume "x = 0"
  then show "to_float x = 0" by (simp add: to_float_def)
qed

subsection \<open>Evaluating a rounding\<close>

lemma round_to_float_eval:
  assumes e: "floor_log2 \<bar>x\<bar> = e" and nz: "x \<noteq> 0" and lo: "- 1022 \<le> e" and hi: "e \<le> 52"
    and m: "round_half_even (x * 2 ^ nat (52 - e)) = m" and b: "\<bar>m\<bar> \<le> 2 ^ 53"
  shows "round_to_float x = Finite (of_int m / 2 ^ nat (52 - e))"
proof -
  have mx: "max (floor_log2 \<bar>x\<bar>) (- 1022) = e" using e lo by simp
  have u: "two_pow (e - 52) = 1 / 2 ^ nat (52 - e)"
    using hi by (cases "e = 52") (simp_all add: two_pow_def)
  have r: "of_int (round_half_even (x / two_pow (e - 52))) * two_pow (e - 52)
             = of_int m / 2 ^ nat (52 - e)"
    unfolding u using m by simp
  have "\<bar>rat_of_int m\<bar> * 1 \<le> \<bar>rat_of_int m\<bar> * 2 ^ nat (52 - e)"
    by (rule mult_left_mono) simp_all
  then have "\<bar>rat_of_int m / 2 ^ nat (52 - e)\<bar> \<le> \<bar>rat_of_int m\<bar>"
    by (simp add: field_simps)
  also have "\<dots> = rat_of_int \<bar>m\<bar>" by simp
  also have "\<dots> \<le> rat_of_int (2 ^ 53)" using b by (simp only: of_int_le_iff)
  also have "\<dots> < 2 ^ 1024" by simp
  finally have "\<bar>rat_of_int m / 2 ^ nat (52 - e)\<bar> < two_pow 1024"
    by (simp add: two_pow_def)
  then have "\<not> two_pow 1024 \<le> rat_of_int m / 2 ^ nat (52 - e)"
    "\<not> rat_of_int m / 2 ^ nat (52 - e) \<le> - two_pow 1024"
    by linarith+
  then show ?thesis
    unfolding round_to_float_def Let_def mx r using nz by simp
qed

lemma float_truediv_eq:
  "float_truediv a b = (if b = 0 then Inl ZeroDivisionError else Inr (float_quotient a b))"
  by (simp add: float_truediv_def to_float_eq_0_iff)

subsection \<open>Dictionary reads and writes\<close>

lemma getitem_stop_profiles_eq:
  "getitem_stop_profiles s k = (profile_of s k, set_profile s k (profile_of s k))"
  by (cases "self_stop_profiles s k")
     (simp_all add: getitem_stop_profiles_def profile_of_def set_profile_def map_upd_triv)

lemma getitem_trip_eq:
  "getitem_trip_min_arrival_time s k = (trip_of s k, set_trip s k (trip_of s k))"
  by (cases "self_trip_min_arrival_time s k")
     (simp_all add: getitem_trip_min_arrival_time_def trip_of_def set_trip_def map_upd_triv)

lemma profile_of_set_profile [simp]:
  "profile_of (set_profile s k p) X = (if X = k then p else profile_of s X)"
  by (simp add: profile_of_def set_profile_def)

lemma profile_of_set_trip [simp]: "profile_of (set_trip s k v) X = profile_of s X"
  by (simp add: profile_of_def set_trip_def)

lemma trip_of_set_trip [simp]:
  "trip_of (set_trip s k v) T = (if T = k then v else trip_of s T)"
  by (simp add: trip_of_def set_trip_def)

lemma trip_of_set_profile [simp]: "trip_of (set_profile s k p) T = trip_of s T"
  by (simp add: trip_of_def set_profile_def)

lemma set_profile_fields [simp]:
  "self_walk_speed (set_profile s k p) = self_walk_speed s"
  "self_walk_network (set_profile s k p) = self_walk_network s"
  "self_transfer_margin (set_profile s k p) = self_transfer_margin s"
  "self_target (set_profile s k p) = self_target s"
  "self_has_run (set_profile s k p) = self_has_run s"
  "self_connections (set_profile s k p) = self_connections s"
  "self_start_time (set_profile s k p) = self_start_time s"
  "self_end_time (set_profile s k p) = self_end_time s"
  "self_trip_min_arrival_time (set_profile s k p) = self_trip_min_arrival_time s"
  "self_stop_profiles (set_profile s k p) = (self_stop_profiles s)(k \<mapsto> p)"
  by (simp_all add: set_profile_def)

lemma set_trip_fields [simp]:
  "self_walk_speed (set_trip s k v) = self_walk_speed s"
  "self_walk_network (set_trip s k v) = self_walk_network s"
  "self_transfer_margin (set_trip s k v) = self_transfer_margin s"
  "self_target (set_trip s k v) = self_target s"
  "self_has_run (set_trip s k v) = self_has_run s"
  "self_connections (set_trip s k v) = self_connections s"
  "self_start_time (set_trip s k v) = self_start_time s"
  "self_end_time (set_trip s k v) = self_end_time s"
  "self_stop_profiles (set_trip s k v) = self_stop_profiles s"
  "self_trip_min_arrival_time (set_trip s k v) = (self_trip_min_arrival_time s)(k \<mapsto> v)"
  by (simp_all add: set_trip_def)

lemma set_profile_twice [simp]: "set_profile (set_profile s k p) k q = set_profile s k q"
  by (simp add: set_profile_def)

text \<open>The footpath loop, one step.\<close>

lemma scan_footpaths_loop_Cons:
  "scan_footpaths_loop s dep arr ((n, d) # es) =
     (if self_walk_speed s = 0 then Aborted ZeroDivisionError s
      else scan_footpaths_loop
             (set_profile s n
                (fst (update_pareto_optimal_tuples (profile_of s n)
                        (ParetoTuple (walk_departure dep d (self_walk_speed s)) arr))))
             dep arr es)"
  by (simp add: getitem_stop_profiles_eq Let_def set_profile_def float_truediv_eq
        walk_departure_def)

lemma scan_footpaths_loop_completes:
  "self_walk_speed s \<noteq> 0 \<Longrightarrow>
   \<exists>s'. scan_footpaths_loop s dep arr es = Completed s'
      \<and> (\<forall>X. profile_of s' X =
               merged_along_footpaths (self_walk_speed s) dep arr X (profile_of s X) es)"
proof (induction es arbitrary: s)
  case Nil
  then show ?case by simp
next
  case (Cons e es)
  obtain n d where e: "e = (n, d)" by (cases e)
  let ?s2 = "set_profile s n
                (fst (update_pareto_optimal_tuples (profile_of s n)
                        (ParetoTuple (walk_departure dep d (self_walk_speed s)) arr)))"
  have ws: "self_walk_speed ?s2 \<noteq> 0" using Cons.prems by simp
  from Cons.IH [OF ws] obtain s' where
    s': "scan_footpaths_loop ?s2 dep arr es = Completed s'"
        "\<forall>X. profile_of s' X =
               merged_along_footpaths (self_walk_speed ?s2) dep arr X (profile_of ?s2 X) es"
    by blast
  have "scan_footpaths_loop s dep arr (e # es) = Completed s'"
    using Cons.prems s'(1) unfolding e scan_footpaths_loop_Cons by simp
  moreover have "\<forall>X. profile_of s' X =
      merged_along_footpaths (self_walk_speed s) dep arr X (profile_of s X) (e # es)"
    using s'(2) unfolding e by simp
  ultimately show ?case by blast
qed

text \<open>One connection, with the dictionary reads written as the defaulting lookups.\<close>

lemma scan_connection_eq:
  "scan_connection s c =
     (let s3 = set_trip
                 (set_profile
                    (set_profile s (arrival_stop c) (profile_of s (arrival_stop c)))
                    (departure_stop c) (profile_of s (departure_stop c)))
                 (trip_id c) (trip_of s (trip_id c))
      in case spec_best_arrival s c of
           PosInf \<Rightarrow> Completed s3
         | Num a \<Rightarrow>
             let s4 = (if num_less (spec_best_arrival s c) (trip_of s (trip_id c))
                       then set_trip s3 (trip_id c) (transfer_arrival s c)
                       else s3);
                 m = update_pareto_optimal_tuples (profile_of s (departure_stop c))
                       (ParetoTuple (Finite (departure_time c)) a);
                 s5 = set_profile s4 (departure_stop c) (fst m)
             in if snd m
                then scan_footpaths_to_departure_stop s5 (departure_stop c)
                       (departure_time c) a
                else Completed s5)"
  unfolding scan_connection_def getitem_stop_profiles_eq getitem_trip_eq spec_best_arrival_def
    transfer_arrival_def
  apply (simp add: Let_def split: pynum.splits prod.splits)
  apply (auto simp: set_trip_def set_profile_def)
  done

lemma same_inputs_refl [simp]: "same_inputs s s"
  by (simp add: same_inputs_def)

lemma same_inputs_trans: "same_inputs s s' \<Longrightarrow> same_inputs s' s'' \<Longrightarrow> same_inputs s s''"
  by (simp add: same_inputs_def)

lemma same_inputs_set_profile [simp]: "same_inputs s (set_profile s' k p) = same_inputs s s'"
  by (simp add: same_inputs_def)

lemma same_inputs_set_trip [simp]: "same_inputs s (set_trip s' k v) = same_inputs s s'"
  by (simp add: same_inputs_def)

subsection \<open>Order on numbers\<close>

lemma num_le_refl [simp]: "num_le a a"
  by (cases a) simp_all

lemma num_le_trans: "num_le a b \<Longrightarrow> num_le b c \<Longrightarrow> num_le a c"
  by (cases a; cases b; cases c) simp_all

lemma num_le_total: "num_le a b \<or> num_le b a"
  by (cases a; cases b) auto

lemma num_le_antisym: "num_le a b \<Longrightarrow> num_le b a \<Longrightarrow> a = b"
  by (cases a; cases b) simp_all

lemma num_less_imp_le: "num_less a b \<Longrightarrow> num_le a b"
  using num_le_total [of a b] by (auto simp: num_less_def)

lemma num_less_irrefl [simp]: "\<not> num_less a a"
  by (simp add: num_less_def)

lemma num_less_PosInf [simp]: "\<not> num_less PosInf a"
  by (simp add: num_less_def)

lemma min_num_PosInf_iff: "min_num a b = PosInf \<longleftrightarrow> a = PosInf \<and> b = PosInf"
  by (cases a; cases b) (auto simp: min_num_def num_less_def)

lemma min_num_less_left: "num_less (min_num a b) a \<Longrightarrow> min_num a b = b"
  by (auto simp: min_num_def)

lemma min_num_le_right: "num_le b a \<Longrightarrow> min_num a b = b"
  by (auto simp: min_num_def num_less_def dest: num_le_antisym)

lemma num_less_min_iff: "num_less (min_num a b) a \<longleftrightarrow> num_less b a"
  by (auto simp: min_num_def)

subsection \<open>What the footpath scan leaves alone\<close>

lemma scan_footpaths_loop_frame:
  "same_inputs s (state_of (scan_footpaths_loop s dep arr es))
   \<and> self_trip_min_arrival_time (state_of (scan_footpaths_loop s dep arr es))
       = self_trip_min_arrival_time s"
proof (induction es arbitrary: s)
  case Nil
  then show ?case by simp
next
  case (Cons e es)
  obtain n d where e: "e = (n, d)" by (cases e)
  show ?case
  proof (cases "self_walk_speed s = 0")
    case True
    then show ?thesis unfolding e scan_footpaths_loop_Cons by simp
  next
    case False
    let ?s2 = "set_profile s n
                (fst (update_pareto_optimal_tuples (profile_of s n)
                        (ParetoTuple (walk_departure dep d (self_walk_speed s)) arr)))"
    have a: "same_inputs ?s2 (state_of (scan_footpaths_loop ?s2 dep arr es))"
      and b: "self_trip_min_arrival_time (state_of (scan_footpaths_loop ?s2 dep arr es))
             = self_trip_min_arrival_time ?s2"
      using Cons.IH [of ?s2] by blast+
    have c: "same_inputs s ?s2" by simp
    have step: "scan_footpaths_loop s dep arr (e # es) = scan_footpaths_loop ?s2 dep arr es"
      using False unfolding e scan_footpaths_loop_Cons by simp
    show ?thesis
      unfolding step using same_inputs_trans [OF c a] b by simp
  qed
qed

lemma scan_footpaths_to_departure_stop_completes:
  "self_walk_speed s \<noteq> 0 \<Longrightarrow>
   \<exists>s'. scan_footpaths_to_departure_stop s L dep arr = Completed s'
      \<and> (\<forall>X. profile_of s' X =
               merged_along_footpaths (self_walk_speed s) dep arr X (profile_of s X)
                 (self_walk_network s L))
      \<and> self_trip_min_arrival_time s' = self_trip_min_arrival_time s
      \<and> same_inputs s s'"
proof -
  assume ws: "self_walk_speed s \<noteq> 0"
  from scan_footpaths_loop_completes [OF ws, of dep arr "self_walk_network s L"]
  obtain s' where s': "scan_footpaths_loop s dep arr (self_walk_network s L) = Completed s'"
    "\<forall>X. profile_of s' X =
               merged_along_footpaths (self_walk_speed s) dep arr X (profile_of s X)
                 (self_walk_network s L)" by blast
  from scan_footpaths_loop_frame [of s dep arr "self_walk_network s L"] s'(1)
  have "same_inputs s s'" "self_trip_min_arrival_time s' = self_trip_min_arrival_time s"
    by simp_all
  with s' show ?thesis unfolding scan_footpaths_to_departure_stop_def by blast
qed

lemma scan_footpaths_to_departure_stop_frame:
  "same_inputs s (state_of (scan_footpaths_to_departure_stop s L dep arr))
   \<and> self_trip_min_arrival_time (state_of (scan_footpaths_to_departure_stop s L dep arr))
       = self_trip_min_arrival_time s"
  unfolding scan_footpaths_to_departure_stop_def by (rule scan_footpaths_loop_frame)

subsection \<open>One scan step\<close>

lemma touched_reads [simp]:
  "profile_of (touched s c) X = profile_of s X"
  "trip_of (touched s c) T = trip_of s T"
  "same_inputs s (touched s c)"
  by (simp_all add: touched_def)

lemma touched_map_le:
  "self_stop_profiles s \<subseteq>\<^sub>m self_stop_profiles (touched s c)"
  "self_trip_min_arrival_time s \<subseteq>\<^sub>m self_trip_min_arrival_time (touched s c)"
  by (auto simp: touched_def map_le_def profile_of_def trip_of_def split: option.splits)

lemma scan_connection_unreachable:
  "spec_best_arrival s c = PosInf \<Longrightarrow> scan_connection s c = Completed (touched s c)"
  by (simp add: scan_connection_eq touched_def)

lemma scan_connection_reachable:
  "spec_best_arrival s c = Num a \<Longrightarrow>
   scan_connection s c =
     (if snd (update_pareto_optimal_tuples (profile_of s (departure_stop c))
                (ParetoTuple (Finite (departure_time c)) a))
      then scan_footpaths_to_departure_stop (merged_state s c a) (departure_stop c)
             (departure_time c) a
      else Completed (merged_state s c a))"
  by (simp add: scan_connection_eq touched_def merged_state_def Let_def)

lemma merged_state_reads:
  "profile_of (merged_state s c a) X =
     (if X = departure_stop c
      then fst (update_pareto_optimal_tuples (profile_of s (departure_stop c))
                  (ParetoTuple (Finite (departure_time c)) a))
      else profile_of s X)"
  "trip_of (merged_state s c a) T =
     (if T = trip_id c \<and> num_less (spec_best_arrival s c) (trip_of s (trip_id c))
      then transfer_arrival s c else trip_of s T)"
  "same_inputs s (merged_state s c a)"
  by (simp_all add: merged_state_def)

lemma scan_connection_frame:
  "same_inputs s (state_of (scan_connection s c))"
proof (cases "spec_best_arrival s c")
  case PosInf
  then show ?thesis by (simp add: scan_connection_unreachable)
next
  case (Num a)
  show ?thesis
    using scan_footpaths_to_departure_stop_frame
            [of "merged_state s c a" "departure_stop c" "departure_time c" a]
          merged_state_reads(3) [of s c a]
    by (auto simp: scan_connection_reachable [OF Num] intro: same_inputs_trans)
qed

lemma scan_connection_trip:
  "trip_of (state_of (scan_connection s c)) T =
     (if T = trip_id c \<and> num_less (spec_best_arrival s c) (trip_of s (trip_id c))
      then transfer_arrival s c else trip_of s T)"
proof (cases "spec_best_arrival s c")
  case PosInf
  then show ?thesis by (simp add: scan_connection_unreachable)
next
  case (Num a)
  have "trip_of (state_of (scan_footpaths_to_departure_stop (merged_state s c a)
           (departure_stop c) (departure_time c) a)) T = trip_of (merged_state s c a) T"
    using scan_footpaths_to_departure_stop_frame
            [of "merged_state s c a" "departure_stop c" "departure_time c" a]
    by (simp add: trip_of_def)
  then show ?thesis
    unfolding scan_connection_reachable [OF Num]
    by (cases "snd (update_pareto_optimal_tuples (profile_of s (departure_stop c))
                      (ParetoTuple (Finite (departure_time c)) a))")
       (simp_all only: merged_state_reads(2) if_True if_False state_of.simps)
qed

lemma scan_connection_completes:
  assumes "self_walk_speed s \<noteq> 0"
  shows "\<exists>s'. scan_connection s c = Completed s'"
proof (cases "spec_best_arrival s c")
  case PosInf
  then show ?thesis by (simp add: scan_connection_unreachable)
next
  case (Num a)
  have "self_walk_speed (merged_state s c a) \<noteq> 0"
    using assms merged_state_reads(3) [of s c a] by (simp add: same_inputs_def)
  from scan_footpaths_to_departure_stop_completes
         [OF this, of "departure_stop c" "departure_time c" a]
  obtain s' where "scan_footpaths_to_departure_stop (merged_state s c a) (departure_stop c)
                     (departure_time c) a = Completed s'" by blast
  then show ?thesis by (simp add: scan_connection_reachable [OF Num])
qed

lemma example_floor_log2:
  "floor_log2 \<bar>1 / 2\<bar> = - 1" "floor_log2 \<bar>19 / 2\<bar> = 3"
  by code_simp+

lemma example_to_float: "to_float 1 = 1" "to_float 2 = 2" "to_float 10 = 10"
  by (rule to_float_int; simp)+

lemma example_floats:
  "float_truediv 1 2 = Inr (Finite (1 / 2))"
  "round_to_float (to_float 10 - 1 / 2) = Finite (19 / 2)"
proof -
  have "round_to_float (1 / 2) = Finite (of_int (2 ^ 52) / 2 ^ nat (52 - (- 1)))"
    by (rule round_to_float_eval [OF example_floor_log2(1)])
       (simp_all add: round_half_even_def)
  then show "float_truediv 1 2 = Inr (Finite (1 / 2))"
    by (simp add: float_truediv_eq float_quotient_def example_to_float)
  have "round_to_float (19 / 2) = Finite (of_int (19 * 2 ^ 48) / 2 ^ nat (52 - 3))"
    by (rule round_to_float_eval [OF example_floor_log2(2)])
       (simp_all add: round_half_even_def)
  then show "round_to_float (to_float 10 - 1 / 2) = Finite (19 / 2)"
    by (simp add: example_to_float)
qed

lemmas example_defs =
  example_profiler_def example_connection_1_def example_connection_2_def
  example_walk_network_def init_def profile_of_def trip_of_def min_num_def num_less_def
  less_pyfloat_def example_floats

lemma update_unchanged:
  "\<not> snd (update_pareto_optimal_tuples p t) \<Longrightarrow> fst (update_pareto_optimal_tuples p t) = p"
  by (cases p) (simp_all split: if_splits)


subsection \<open>The trip tracker along the sweep\<close>

lemma run_loop_frame:
  "same_inputs s (state_of (run_loop s l cs))"
proof (induction cs arbitrary: s l)
  case Nil
  then show ?case by simp
next
  case (Cons c cs)
  show ?case
  proof (cases "scan_connection s c")
    case (Completed s')
    have a: "same_inputs s s'" using scan_connection_frame [of s c] Completed by simp
    have b: "same_inputs s' (state_of (run_loop s' (Num (departure_time c)) cs))"
      by (rule Cons.IH)
    show ?thesis using same_inputs_trans [OF a b] Completed by simp
  next
    case (Aborted e s')
    then show ?thesis using scan_connection_frame [of s c] by simp
  qed
qed

lemma scan_connection_trip_le:
  "num_le (trip_of (state_of (scan_connection s c)) T) (trip_of s T)"
proof -
  have "num_less (spec_best_arrival s c) (trip_of s (trip_id c)) \<Longrightarrow>
        num_le (transfer_arrival s c) (trip_of s (trip_id c))"
    unfolding spec_best_arrival_def
    by (auto simp: num_less_min_iff dest: num_less_imp_le)
  then show ?thesis by (auto simp: scan_connection_trip)
qed

lemma scan_connection_trip_dom:
  "dom (self_trip_min_arrival_time s)
     \<subseteq> dom (self_trip_min_arrival_time (state_of (scan_connection s c)))"
proof (cases "spec_best_arrival s c")
  case PosInf
  then show ?thesis
    using touched_map_le(2) [of s c]
    by (simp add: scan_connection_unreachable map_le_implies_dom_le)
next
  case (Num a)
  have "dom (self_trip_min_arrival_time s) \<subseteq> dom (self_trip_min_arrival_time (touched s c))"
    using touched_map_le(2) [of s c] by (rule map_le_implies_dom_le)
  then have m: "dom (self_trip_min_arrival_time s)
          \<subseteq> dom (self_trip_min_arrival_time (merged_state s c a))"
    by (auto simp: merged_state_def)
  have "self_trip_min_arrival_time (state_of (scan_connection s c))
          = self_trip_min_arrival_time (merged_state s c a)"
    using scan_footpaths_to_departure_stop_frame
            [of "merged_state s c a" "departure_stop c" "departure_time c" a]
    by (simp add: scan_connection_reachable [OF Num])
  with m show ?thesis by simp
qed

lemma run_loop_trip:
  "num_le (trip_of (state_of (run_loop s l cs)) T) (trip_of s T)
   \<and> dom (self_trip_min_arrival_time s)
       \<subseteq> dom (self_trip_min_arrival_time (state_of (run_loop s l cs)))"
proof (induction cs arbitrary: s l)
  case Nil
  then show ?case by simp
next
  case (Cons c cs)
  have step: "num_le (trip_of (state_of (scan_connection s c)) T) (trip_of s T)"
    "dom (self_trip_min_arrival_time s)
       \<subseteq> dom (self_trip_min_arrival_time (state_of (scan_connection s c)))"
    by (rule scan_connection_trip_le, rule scan_connection_trip_dom)
  show ?case
  proof (cases "scan_connection s c")
    case (Completed s')
    from Cons.IH [of s' "Num (departure_time c)"]
    have "num_le (trip_of (state_of (run_loop s' (Num (departure_time c)) cs)) T) (trip_of s' T)"
      "dom (self_trip_min_arrival_time s')
       \<subseteq> dom (self_trip_min_arrival_time (state_of (run_loop s' (Num (departure_time c)) cs)))"
      by blast+
    with step Completed show ?thesis
      by (auto intro: num_le_trans)
  next
    case (Aborted e s')
    with step show ?thesis by auto
  qed
qed

subsection \<open>The order assertion along the sweep\<close>

lemma run_loop_append:
  "run_loop s l (pre @ rest) =
     (case run_loop s l pre of
        Aborted e s' \<Rightarrow> Aborted e s'
      | Completed s' \<Rightarrow>
          run_loop s' (if pre = [] then l else Num (departure_time (last pre))) rest)"
proof (induction pre arbitrary: s l)
  case Nil
  then show ?case by simp
next
  case (Cons c pre)
  show ?case
    by (cases "scan_connection s c") (auto simp: Cons.IH split: outcome.splits)
qed

lemma run_loop_completed_iff:
  "self_walk_speed s \<noteq> 0 \<Longrightarrow>
   is_completed (run_loop s l cs) =
     (successively (\<lambda>x y. departure_time y \<le> departure_time x) cs
      \<and> (cs = [] \<or> num_le (Num (departure_time (hd cs))) l))"
proof (induction cs arbitrary: s l)
  case Nil
  then show ?case by simp
next
  case (Cons c cs)
  from scan_connection_completes [OF Cons.prems, of c]
  obtain s' where s': "scan_connection s c = Completed s'" by blast
  have "same_inputs s s'" using scan_connection_frame [of s c] s' by simp
  then have ws': "self_walk_speed s' \<noteq> 0"
    using Cons.prems by (simp add: same_inputs_def)
  show ?case
    using Cons.IH [OF ws', of "Num (departure_time c)"] s'
    by (auto simp: successively_Cons)
qed

lemma run_loop_abort_is_assertion:
  "self_walk_speed s \<noteq> 0 \<Longrightarrow> run_loop s l cs = Aborted e s' \<Longrightarrow> e = AssertionError"
proof (induction cs arbitrary: s l)
  case Nil
  then show ?case by simp
next
  case (Cons c cs)
  from scan_connection_completes [OF Cons.prems(1), of c]
  obtain s1 where s1: "scan_connection s c = Completed s1" by blast
  have "same_inputs s s1" using scan_connection_frame [of s c] s1 by simp
  then have ws': "self_walk_speed s1 \<noteq> 0"
    using Cons.prems(1) by (simp add: same_inputs_def)
  show ?case
  proof (cases "num_le (Num (departure_time c)) l")
    case True
    with Cons.prems(2) s1 have "run_loop s1 (Num (departure_time c)) cs = Aborted e s'"
      by simp
    from Cons.IH [OF ws' this] show ?thesis .
  next
    case False
    with Cons.prems(2) show ?thesis by simp
  qed
qed

lemma run_loop_has_run:
  "self_has_run (state_of (run_loop s l cs)) = self_has_run s"
  using run_loop_frame [of s l cs] by (simp add: same_inputs_def)

subsection \<open>The query window is never read\<close>

lemma with_window_reads [simp]:
  "profile_of (with_window a b s) X = profile_of s X"
  "trip_of (with_window a b s) T = trip_of s T"
  "self_walk_speed (with_window a b s) = self_walk_speed s"
  "self_walk_network (with_window a b s) = self_walk_network s"
  "self_transfer_margin (with_window a b s) = self_transfer_margin s"
  "self_connections (with_window a b s) = self_connections s"
  "self_has_run (with_window a b s) = self_has_run s"
  "self_stop_profiles (with_window a b s) = self_stop_profiles s"
  "self_trip_min_arrival_time (with_window a b s) = self_trip_min_arrival_time s"
  by (simp_all add: with_window_def profile_of_def trip_of_def)

lemma with_window_writes [simp]:
  "set_profile (with_window a b s) k p = with_window a b (set_profile s k p)"
  "set_trip (with_window a b s) k v = with_window a b (set_trip s k v)"
  by (simp_all add: with_window_def set_profile_def set_trip_def)

lemma with_window_step [simp]:
  "transfer_arrival (with_window a b s) c = transfer_arrival s c"
  "spec_best_arrival (with_window a b s) c = spec_best_arrival s c"
  "touched (with_window a b s) c = with_window a b (touched s c)"
  by (simp_all add: transfer_arrival_def spec_best_arrival_def touched_def)

lemma with_window_merged_state [simp]:
  "merged_state (with_window a b s) c x = with_window a b (merged_state s c x)"
  by (simp add: merged_state_def)

lemma with_window_scan_footpaths_loop:
  "scan_footpaths_loop (with_window a b s) dep arr es =
     map_outcome (with_window a b) (scan_footpaths_loop s dep arr es)"
proof (induction es arbitrary: s)
  case Nil
  then show ?case by simp
next
  case (Cons e es)
  obtain n d where e: "e = (n, d)" by (cases e)
  show ?case
    unfolding e scan_footpaths_loop_Cons by (simp add: Cons.IH)
qed

lemma with_window_scan_connection:
  "scan_connection (with_window a b s) c =
     map_outcome (with_window a b) (scan_connection s c)"
proof (cases "spec_best_arrival s c")
  case PosInf
  then show ?thesis by (simp add: scan_connection_unreachable)
next
  case (Num x)
  then have "spec_best_arrival (with_window a b s) c = Num x" by simp
  from scan_connection_reachable [OF this] scan_connection_reachable [OF Num]
  show ?thesis
    by (simp add: scan_footpaths_to_departure_stop_def with_window_scan_footpaths_loop)
qed

lemma with_window_run_loop:
  "run_loop (with_window a b s) l cs = map_outcome (with_window a b) (run_loop s l cs)"
proof (induction cs arbitrary: s l)
  case Nil
  then show ?case by simp
next
  case (Cons c cs)
  show ?case
    by (cases "scan_connection s c") (simp_all add: with_window_scan_connection Cons.IH)
qed

lemma with_window_run:
  "run (with_window a b s) = map_outcome (with_window a b) (run s)"
  by (cases "run_loop s PosInf (self_connections s)")
     (simp_all add: run_def private_run_def with_window_run_loop, simp add: with_window_def)

lemma init_with_window:
  "init evs tgt a b m w ws = with_window a b (init evs tgt a' b' m w ws)"
  by (simp add: init_def with_window_def)

lemma map_outcome_with_window [simp]:
  "is_completed (map_outcome f r) = is_completed r"
  "self_stop_profiles (state_of (map_outcome (with_window a b) r)) =
     self_stop_profiles (state_of r)"
  "self_has_run (state_of (map_outcome (with_window a b) r)) = self_has_run (state_of r)"
  by (cases r; simp)+

subsection \<open>The target keeps its identity profile\<close>

lemma scan_footpaths_loop_identity:
  "profile_of s T = IdentityNodeProfile \<Longrightarrow>
   profile_of (state_of (scan_footpaths_loop s dep arr es)) T = IdentityNodeProfile"
proof (induction es arbitrary: s)
  case Nil
  then show ?case by simp
next
  case (Cons e es)
  obtain n d where e: "e = (n, d)" by (cases e)
  show ?case
    unfolding e scan_footpaths_loop_Cons using Cons.prems
    by (auto intro!: Cons.IH)
qed

lemma scan_connection_identity:
  assumes "profile_of s T = IdentityNodeProfile"
  shows "profile_of (state_of (scan_connection s c)) T = IdentityNodeProfile"
proof (cases "spec_best_arrival s c")
  case PosInf
  then show ?thesis using assms by (simp add: scan_connection_unreachable)
next
  case (Num a)
  have "profile_of (merged_state s c a) T = IdentityNodeProfile"
    using assms by (cases "T = departure_stop c") (simp_all add: merged_state_reads(1))
  then show ?thesis
    using scan_footpaths_loop_identity
            [of "merged_state s c a" T "departure_time c" a
                "self_walk_network (merged_state s c a) (departure_stop c)"]
    by (simp add: scan_connection_reachable [OF Num] scan_footpaths_to_departure_stop_def)
qed

lemma run_loop_identity:
  "profile_of s T = IdentityNodeProfile \<Longrightarrow>
   profile_of (state_of (run_loop s l cs)) T = IdentityNodeProfile"
proof (induction cs arbitrary: s l)
  case Nil
  then show ?case by simp
next
  case (Cons c cs)
  from scan_connection_identity [OF Cons.prems, of c] Cons.prems
  show ?case
    by (cases "scan_connection s c") (auto intro: Cons.IH)
qed

lemma merged_along_footpaths_eq:
  "merged_along_footpaths ws dep arr X p es =
     merge_all_at X p
       (map (\<lambda>(n, d). (n, ParetoTuple (walk_departure dep d ws) arr)) es)"
  by (induction es arbitrary: p) auto

text \<open>The scan step does what the list says.\<close>

lemma scan_connection_spec_merges:
  assumes ws: "self_walk_speed s \<noteq> 0"
  shows "\<exists>s'. scan_connection s c = Completed s'
           \<and> (\<forall>X. profile_of s' X = merge_all_at X (profile_of s X) (spec_merges s c))"
proof (cases "spec_best_arrival s c")
  case PosInf
  then show ?thesis
    by (simp add: scan_connection_unreachable spec_merges_def)
next
  case (Num a)
  let ?m = "update_pareto_optimal_tuples (profile_of s (departure_stop c))
              (ParetoTuple (Finite (departure_time c)) a)"
  let ?sm = "merged_state s c a"
  have inputs: "same_inputs s ?sm" by (rule merged_state_reads(3))
  show ?thesis
  proof (cases "snd ?m")
    case False
    then show ?thesis
      by (simp add: scan_connection_reachable [OF Num] spec_merges_def Num
            merged_state_reads(1))
  next
    case True
    have ws': "self_walk_speed ?sm \<noteq> 0"
      using ws inputs by (simp add: same_inputs_def)
    from scan_footpaths_to_departure_stop_completes
           [OF ws', of "departure_stop c" "departure_time c" a]
    obtain s' where s':
      "scan_footpaths_to_departure_stop ?sm (departure_stop c) (departure_time c) a
         = Completed s'"
      "\<forall>X. profile_of s' X =
         merged_along_footpaths (self_walk_speed ?sm) (departure_time c) a X
           (profile_of ?sm X) (self_walk_network ?sm (departure_stop c))"
      by blast
    have eqs: "self_walk_speed ?sm = self_walk_speed s"
      "self_walk_network ?sm = self_walk_network s"
      using inputs by (simp_all add: same_inputs_def)
    have "\<forall>X. profile_of s' X = merge_all_at X (profile_of s X) (spec_merges s c)"
      using s'(2) True unfolding eqs merged_state_reads(1) merged_along_footpaths_eq
      by (simp add: spec_merges_def Num)
    with True s'(1) show ?thesis
      by (simp add: scan_connection_reachable [OF Num])
  qed
qed


subsection \<open>Properties of all stored tuples\<close>

lemma all_in_profile_empty [simp]: "all_in_profile P (NodeProfile [])"
  by (simp add: all_in_profile_def)

lemma all_in_profile_update:
  "all_in_profile P p \<Longrightarrow> P t \<Longrightarrow> all_in_profile P (fst (update_pareto_optimal_tuples p t))"
  by (cases p) (auto simp: all_in_profile_def list_all_iff set_insort_key)

lemma all_tuples_set_profile:
  "all_tuples P s \<Longrightarrow> all_in_profile P p \<Longrightarrow> all_tuples P (set_profile s k p)"
  by (simp add: all_tuples_def)

lemma all_tuples_set_trip [simp]: "all_tuples P (set_trip s k v) = all_tuples P s"
  by (simp add: all_tuples_def)

lemma all_tuples_touched [simp]: "all_tuples P (touched s c) = all_tuples P s"
  by (simp add: all_tuples_def)

lemma all_tuples_has_run [simp]: "all_tuples P (s\<lparr>self_has_run := b\<rparr>) = all_tuples P s"
  by (simp add: all_tuples_def profile_of_def)

lemma all_tuples_conj:
  "all_tuples (\<lambda>t. P t \<and> Q t) s = (all_tuples P s \<and> all_tuples Q s)"
  by (auto simp: all_tuples_def all_in_profile_def list_all_iff split: node_profile.splits)

lemma all_tuples_int_tuple:
  "all_tuples int_tuple s = (all_tuples int_departure s \<and> all_tuples int_arrival s)"
  using all_tuples_conj [of int_departure int_arrival s]
  by (simp add: int_tuple_def [abs_def])

lemma all_tuples_scan_footpaths_loop:
  "all_tuples P s \<Longrightarrow>
   list_all (\<lambda>(n, d). P (ParetoTuple (walk_departure dep d (self_walk_speed s)) arr)) es \<Longrightarrow>
   all_tuples P (state_of (scan_footpaths_loop s dep arr es))"
proof (induction es arbitrary: s)
  case Nil
  then show ?case by simp
next
  case (Cons e es)
  obtain n d where e: "e = (n, d)" by (cases e)
  let ?pt = "ParetoTuple (walk_departure dep d (self_walk_speed s)) arr"
  let ?s2 = "set_profile s n (fst (update_pareto_optimal_tuples (profile_of s n) ?pt))"
  have "P ?pt" using Cons.prems(2) unfolding e by simp
  moreover have "all_in_profile P (profile_of s n)"
    using Cons.prems(1) by (simp add: all_tuples_def)
  ultimately have "all_tuples P ?s2"
    using Cons.prems(1) by (intro all_tuples_set_profile all_in_profile_update)
  moreover have
    "list_all (\<lambda>(n, d). P (ParetoTuple (walk_departure dep d (self_walk_speed ?s2)) arr)) es"
    using Cons.prems(2) by simp
  ultimately have "all_tuples P (state_of (scan_footpaths_loop ?s2 dep arr es))"
    by (rule Cons.IH)
  then show ?case
    unfolding e scan_footpaths_loop_Cons using Cons.prems(1) by simp
qed

lemma all_tuples_scan_connection:
  assumes "all_tuples P s"
    and "\<And>a. spec_best_arrival s c = Num a \<Longrightarrow>
           P (ParetoTuple (Finite (departure_time c)) a)
           \<and> list_all (\<lambda>(n, d). P (ParetoTuple
                          (walk_departure (departure_time c) d (self_walk_speed s)) a))
               (self_walk_network s (departure_stop c))"
  shows "all_tuples P (state_of (scan_connection s c))"
proof (cases "spec_best_arrival s c")
  case PosInf
  then show ?thesis
    using assms(1) by (simp add: scan_connection_unreachable)
next
  case (Num a)
  note p = assms(2) [OF Num]
  have "all_in_profile P (fst (update_pareto_optimal_tuples
      (profile_of s (departure_stop c)) (ParetoTuple (Finite (departure_time c)) a)))"
    using assms(1) p by (intro all_in_profile_update) (simp_all add: all_tuples_def)
  then have m: "all_tuples P (merged_state s c a)"
    unfolding merged_state_def using assms(1) by (intro all_tuples_set_profile) simp_all
  have eqs: "self_walk_speed (merged_state s c a) = self_walk_speed s"
    "self_walk_network (merged_state s c a) = self_walk_network s"
    using merged_state_reads(3) [of s c a] by (simp_all add: same_inputs_def)
  have "all_tuples P (state_of (scan_footpaths_to_departure_stop (merged_state s c a)
           (departure_stop c) (departure_time c) a))"
    unfolding scan_footpaths_to_departure_stop_def
    using m p by (intro all_tuples_scan_footpaths_loop) (simp_all add: eqs)
  with m show ?thesis
    by (simp add: scan_connection_reachable [OF Num])
qed

subsection \<open>Arrival times and tracked values stay integers\<close>

lemma int_num_min_num: "int_num a \<Longrightarrow> int_num b \<Longrightarrow> int_num (min_num a b)"
  by (simp add: min_num_def)

lemma int_num_min_arrival_from:
  "list_all int_arrival ts \<Longrightarrow> int_num (min_arrival_from ts t)"
  by (induction ts) (auto simp: int_num_def int_arrival_def min_num_def)

lemma int_num_query:
  "all_in_profile int_arrival p \<Longrightarrow> t \<in> \<int> \<Longrightarrow>
   int_num (get_earliest_arrival_time_at_target p t)"
  by (cases p) (simp_all add: all_in_profile_def int_num_min_arrival_from, simp add: int_num_def)

lemma int_num_spec_best_arrival:
  assumes "all_tuples int_arrival s" "int_tracker s" "int_connection c"
    "self_transfer_margin s \<in> \<int>"
  shows "int_num (transfer_arrival s c)" "int_num (spec_best_arrival s c)"
proof -
  have "arrival_time c + self_transfer_margin s \<in> \<int>"
    using assms(3,4) by (simp add: int_connection_def)
  moreover have "all_in_profile int_arrival (profile_of s (arrival_stop c))"
    using assms(1) by (simp add: all_tuples_def)
  ultimately show t: "int_num (transfer_arrival s c)"
    unfolding transfer_arrival_def by (intro int_num_query)
  have "int_num (trip_of s (trip_id c))"
    using assms(2) by (simp add: int_tracker_def)
  with t show "int_num (spec_best_arrival s c)"
    unfolding spec_best_arrival_def by (rule int_num_min_num [rotated])
qed

lemma int_arrivals_scan_connection:
  assumes "all_tuples int_arrival s" "int_tracker s" "int_connection c"
    "self_transfer_margin s \<in> \<int>"
  shows "all_tuples int_arrival (state_of (scan_connection s c))"
    and "int_tracker (state_of (scan_connection s c))"
proof -
  note b = int_num_spec_best_arrival [OF assms]
  show "all_tuples int_arrival (state_of (scan_connection s c))"
  proof (rule all_tuples_scan_connection [OF assms(1)])
    fix a assume "spec_best_arrival s c = Num a"
    then have "a \<in> \<int>" using b(2) by (simp add: int_num_def)
    then show "int_arrival (ParetoTuple (Finite (departure_time c)) a)
           \<and> list_all (\<lambda>(n, d). int_arrival (ParetoTuple
                          (walk_departure (departure_time c) d (self_walk_speed s)) a))
               (self_walk_network s (departure_stop c))"
      by (simp add: int_arrival_def list_all_iff split_beta)
  qed
  show "int_tracker (state_of (scan_connection s c))"
    using assms(2) b(1) by (simp add: int_tracker_def scan_connection_trip)
qed

lemma int_arrivals_run_loop:
  assumes "all_tuples int_arrival s" "int_tracker s" "list_all int_connection cs"
    "self_transfer_margin s \<in> \<int>"
  shows "all_tuples int_arrival (state_of (run_loop s l cs))
         \<and> int_tracker (state_of (run_loop s l cs))"
  using assms
proof (induction cs arbitrary: s l)
  case Nil
  then show ?case by simp
next
  case (Cons c cs)
  let ?r = "scan_connection s c"
  have step: "all_tuples int_arrival (state_of ?r)" "int_tracker (state_of ?r)"
    using Cons.prems by (simp_all add: int_arrivals_scan_connection)
  have "same_inputs s (state_of ?r)" by (rule scan_connection_frame)
  then have m: "self_transfer_margin (state_of ?r) \<in> \<int>"
    using Cons.prems(4) by (simp add: same_inputs_def)
  have rest: "all_tuples int_arrival (state_of (run_loop (state_of ?r) (Num (departure_time c)) cs))
         \<and> int_tracker (state_of (run_loop (state_of ?r) (Num (departure_time c)) cs))"
    using step Cons.prems(3) m by (intro Cons.IH) simp_all
  show ?case
    using step rest Cons.prems(1,2) by (cases ?r) simp_all
qed

lemma int_arrivals_init:
  "all_tuples int_arrival (init evs tgt st et m w ws)" "int_tracker (init evs tgt st et m w ws)"
  by (simp_all add: all_tuples_def int_tracker_def init_def profile_of_def trip_of_def
        all_in_profile_def int_num_def)

lemma all_tuples_init: "all_tuples P (init evs tgt st et m w ws)"
  by (simp add: all_tuples_def init_def profile_of_def all_in_profile_def)

subsection \<open>Departure times stay integers when every walk takes an exact integer time\<close>

lemma int_departures_scan_connection:
  assumes "all_tuples int_departure s" "departure_time c \<in> \<int>" "\<bar>departure_time c\<bar> < 2 ^ 52"
    and "exact_integer_walks (self_walk_network s) (self_walk_speed s)"
  shows "all_tuples int_departure (state_of (scan_connection s c))"
proof (rule all_tuples_scan_connection [OF assms(1)])
  fix a
  have "list_all (\<lambda>(n, d). exact_integer_walk d (self_walk_speed s))
          (self_walk_network s (departure_stop c))"
    using assms(4) by (simp add: exact_integer_walks_def)
  then have "list_all (\<lambda>(n, d). int_departure (ParetoTuple
                          (walk_departure (departure_time c) d (self_walk_speed s)) a))
               (self_walk_network s (departure_stop c))"
    using exact_integer_walk_departure [OF assms(2,3)]
    by (auto simp: list_all_iff int_departure_def)
  then show "int_departure (ParetoTuple (Finite (departure_time c)) a)
           \<and> list_all (\<lambda>(n, d). int_departure (ParetoTuple
                          (walk_departure (departure_time c) d (self_walk_speed s)) a))
               (self_walk_network s (departure_stop c))"
    using assms(2) by (simp add: int_departure_def)
qed

lemma int_departures_run_loop:
  assumes "all_tuples int_departure s" "list_all int_connection cs" "small_departures cs"
    and "exact_integer_walks (self_walk_network s) (self_walk_speed s)"
  shows "all_tuples int_departure (state_of (run_loop s l cs))"
  using assms
proof (induction cs arbitrary: s l)
  case Nil
  then show ?case by simp
next
  case (Cons c cs)
  let ?r = "scan_connection s c"
  have step: "all_tuples int_departure (state_of ?r)"
    using Cons.prems
    by (intro int_departures_scan_connection)
       (simp_all add: int_connection_def small_departures_def)
  have "same_inputs s (state_of ?r)" by (rule scan_connection_frame)
  then have w: "exact_integer_walks (self_walk_network (state_of ?r))
                  (self_walk_speed (state_of ?r))"
    using Cons.prems(4) by (simp add: same_inputs_def)
  have rest: "all_tuples int_departure
                (state_of (run_loop (state_of ?r) (Num (departure_time c)) cs))"
    using step Cons.prems(2,3) w by (intro Cons.IH) (simp_all add: small_departures_def)
  show ?case
    using step rest Cons.prems(1) by (cases ?r) simp_all
qed

subsection \<open>The merged tuples\<close>

lemma spec_merges_int_arrival:
  assumes "all_tuples int_arrival s" "int_tracker s" "int_connection c"
    "self_transfer_margin s \<in> \<int>"
  shows "list_all (\<lambda>(k, t). int_arrival t) (spec_merges s c)"
    and "list_all (\<lambda>(k, t). int_tuple t) (take 1 (spec_merges s c))"
proof -
  note b = int_num_spec_best_arrival(2) [OF assms]
  have dep: "departure_time c \<in> \<int>" using assms(3) by (simp add: int_connection_def)
  show "list_all (\<lambda>(k, t). int_arrival t) (spec_merges s c)"
    using b by (cases "spec_best_arrival s c")
      (auto simp: spec_merges_def int_num_def int_arrival_def list_all_iff)
  show "list_all (\<lambda>(k, t). int_tuple t) (take 1 (spec_merges s c))"
    using b dep by (cases "spec_best_arrival s c")
      (auto simp: spec_merges_def int_num_def int_arrival_def int_tuple_def int_departure_def)
qed

lemma spec_merges_int_tuple:
  assumes "all_tuples int_arrival s" "int_tracker s" "int_connection c"
    "self_transfer_margin s \<in> \<int>" "\<bar>departure_time c\<bar> < 2 ^ 52"
    "exact_integer_walks (self_walk_network s) (self_walk_speed s)"
  shows "list_all (\<lambda>(k, t). int_tuple t) (spec_merges s c)"
proof (cases "spec_best_arrival s c")
  case PosInf
  then show ?thesis by (simp add: spec_merges_def)
next
  case (Num a)
  have a: "a \<in> \<int>"
    using int_num_spec_best_arrival(2) [OF assms(1-4)] Num by (simp add: int_num_def)
  have dep: "departure_time c \<in> \<int>" using assms(3) by (simp add: int_connection_def)
  have "list_all (\<lambda>(n, d). exact_integer_walk d (self_walk_speed s))
          (self_walk_network s (departure_stop c))"
    using assms(6) by (simp add: exact_integer_walks_def)
  then show ?thesis
    using a dep exact_integer_walk_departure [OF dep assms(5)]
    by (auto simp: spec_merges_def Num int_tuple_def int_departure_def int_arrival_def
          list_all_iff)
qed

lemma all_tuples_run:
  "\<not> self_has_run s \<Longrightarrow>
   all_tuples P (state_of (run s)) = all_tuples P (state_of (run_loop s PosInf (self_connections s)))"
  by (cases "run_loop s PosInf (self_connections s)") (simp_all add: run_def private_run_def)

lemma int_tracker_has_run [simp]: "int_tracker (s\<lparr>self_has_run := b\<rparr>) = int_tracker s"
  by (simp add: int_tracker_def trip_of_def)

lemma int_tracker_run:
  "\<not> self_has_run s \<Longrightarrow>
   int_tracker (state_of (run s)) = int_tracker (state_of (run_loop s PosInf (self_connections s)))"
  by (cases "run_loop s PosInf (self_connections s)") (simp_all add: run_def private_run_def)

lemma example_even_exact: "exact_integer_walks example_walk_network_even 2"
proof -
  have "to_float 4 = 4" "to_float 2 = 2" by (rule to_float_int; simp)+
  moreover have "round_to_float 2 = Finite 2" by (rule round_to_float_int) simp_all
  ultimately show ?thesis
    by (simp add: exact_integer_walks_def exact_integer_walk_def float_quotient_def
          example_walk_network_even_def)
qed

subsection \<open>The examples, evaluated\<close>

text \<open>
  The floats of the network walked at speed 0.7: the double of \<open>7 / 10\<close>, the
  quotients \<open>21 / 0.7 = 30.000000000000004\<close> and \<open>7 / 0.7 = 10\<close>, and the departure
  times \<open>40 - 21 / 0.7 = 9.999999999999996\<close>, \<open>20 - 7 / 0.7 = 10\<close> and
  \<open>100 - 21 / 0.7 = 70\<close>, the last one rounded by the subtraction.
\<close>

lemma tenths_to_float:
  "to_float (7 / 10) = 3152519739159347 / 4503599627370496"
  "to_float 7 = 7" "to_float 20 = 20" "to_float 21 = 21" "to_float 40 = 40"
  "to_float 100 = 100"
  by code_simp+

lemma tenths_floor_log2:
  "floor_log2 \<bar>94575592174780416 / 3152519739159347\<bar> = 4"
  "floor_log2 \<bar>2814749767106559 / 281474976710656\<bar> = 3"
  "floor_log2 \<bar>31525197391593472 / 3152519739159347\<bar> = 3"
  "floor_log2 \<bar>10\<bar> = 3"
  "floor_log2 \<bar>19703248369745919 / 281474976710656\<bar> = 6"
  by code_simp+

lemma tenths_rounds:
  "round_half_even (94575592174780416 / 3152519739159347 * 2 ^ nat (52 - 4))
     = 8444249301319681"
  "round_half_even (2814749767106559 / 281474976710656 * 2 ^ nat (52 - 3))
     = 5629499534213118"
  "round_half_even (31525197391593472 / 3152519739159347 * 2 ^ nat (52 - 3))
     = 5629499534213120"
  "round_half_even (10 * 2 ^ nat (52 - 3)) = 5629499534213120"
  "round_half_even (19703248369745919 / 281474976710656 * 2 ^ nat (52 - 6))
     = 4925812092436480"
  by code_simp+

lemma tenths_quotients:
  "float_quotient 21 (7 / 10) = Finite (8444249301319681 / 281474976710656)"
  "float_quotient 7 (7 / 10) = Finite 10"
proof -
  have "round_to_float (94575592174780416 / 3152519739159347)
          = Finite (of_int 8444249301319681 / 2 ^ nat (52 - 4))"
    by (rule round_to_float_eval [OF tenths_floor_log2(1) _ _ _ tenths_rounds(1)])
       simp_all
  then show "float_quotient 21 (7 / 10) = Finite (8444249301319681 / 281474976710656)"
    by (simp add: float_quotient_def tenths_to_float)
  have "round_to_float (31525197391593472 / 3152519739159347)
          = Finite (of_int 5629499534213120 / 2 ^ nat (52 - 3))"
    by (rule round_to_float_eval [OF tenths_floor_log2(3) _ _ _ tenths_rounds(3)])
       simp_all
  then show "float_quotient 7 (7 / 10) = Finite 10"
    by (simp add: float_quotient_def tenths_to_float)
qed

lemma tenths_departures:
  "walk_departure 40 21 (7 / 10) = Finite (2814749767106559 / 281474976710656)"
  "walk_departure 20 7 (7 / 10) = Finite 10"
  "walk_departure 100 21 (7 / 10) = Finite 70"
proof -
  have "round_to_float (19703248369745919 / 281474976710656)
          = Finite (of_int 4925812092436480 / 2 ^ nat (52 - 6))"
    by (rule round_to_float_eval [OF tenths_floor_log2(5) _ _ _ tenths_rounds(5)])
       simp_all
  then show "walk_departure 100 21 (7 / 10) = Finite 70"
    by (simp add: walk_departure_def tenths_quotients tenths_to_float)
  have "round_to_float (2814749767106559 / 281474976710656)
          = Finite (of_int 5629499534213118 / 2 ^ nat (52 - 3))"
    by (rule round_to_float_eval [OF tenths_floor_log2(2) _ _ _ tenths_rounds(2)])
       simp_all
  then show "walk_departure 40 21 (7 / 10) = Finite (2814749767106559 / 281474976710656)"
    by (simp add: walk_departure_def tenths_quotients tenths_to_float)
  have "round_to_float 10 = Finite (of_int 5629499534213120 / 2 ^ nat (52 - 3))"
    by (rule round_to_float_eval [OF tenths_floor_log2(4) _ _ _ tenths_rounds(4)])
       simp_all
  then show "walk_departure 20 7 (7 / 10) = Finite 10"
    by (simp add: walk_departure_def tenths_quotients tenths_to_float)
qed

lemmas example_step_defs =
  scan_connection_def getitem_stop_profiles_def getitem_trip_min_arrival_time_def
  scan_footpaths_to_departure_stop_def Let_def dominates_def init_def profile_of_def
  trip_of_def min_num_def num_less_def less_pyfloat_def

lemma example_tenths_reads:
  "profile_of example_tenths 0 = IdentityNodeProfile"
  "profile_of example_tenths 1 = NodeProfile []"
  "profile_of example_tenths 2
     = NodeProfile [ParetoTuple (Finite (2814749767106559 / 281474976710656)) 50]"
  "trip_of example_tenths 4 = PosInf"
  "self_walk_speed example_tenths = 7 / 10"
  "self_transfer_margin example_tenths = 0"
  "self_walk_network example_tenths = example_walk_network_tenths"
  by (simp_all add: example_tenths_def example_connection_6_def
        example_walk_network_tenths_def example_step_defs scan_footpaths_loop_Cons
        tenths_departures set_profile_def
        del: scan_footpaths_loop.simps(2))

lemma example_tracked_reads:
  "trip_of example_tracked 1 = Num 17"
  "profile_of example_tracked 3 = NodeProfile [ParetoTuple (Finite 20) 32]"
  "profile_of example_tracked 2 = NodeProfile []"
  "self_transfer_margin example_tracked = 2"
  by (simp_all add: example_tracked_def example_connection_4_def example_connection_1_def
        example_no_walks_def example_step_defs)

lemma min_num_cases: "min_num a b = a \<or> min_num a b = b"
  by (simp add: min_num_def)

lemma min_num_le: "num_le (min_num a b) a" "num_le (min_num a b) b"
  using num_le_total [of a b] by (auto simp: min_num_def num_less_def)

section \<open>The claims\<close>

text \<open>
  Claim C1. A scanned connection \<open>c\<close> queries the frontier at its arrival location
  with \<open>arrival_time c + transfer_margin\<close> and reads the tracker's value of its trip
  with no margin. When one of the two is finite, the best arrival \<open>a\<close> is their
  minimum: it is one of the two values and is above neither. The tuple
  \<open>(departure_time c, a)\<close> is merged into the frontier at the departure location and
  into no other: the step is that merge, followed by the footpath scan exactly when the
  merge reported a change.
\<close>

theorem scan_connection_merges_best_arrival:
  assumes "trip_of s (trip_id c) \<noteq> PosInf
           \<or> get_earliest_arrival_time_at_target (profile_of s (arrival_stop c))
                (arrival_time c + self_transfer_margin s) \<noteq> PosInf"
  shows "\<exists>a.
           (Num a = trip_of s (trip_id c)
            \<or> Num a = get_earliest_arrival_time_at_target (profile_of s (arrival_stop c))
                         (arrival_time c + self_transfer_margin s))
         \<and> (\<forall>x. trip_of s (trip_id c) = Num x \<longrightarrow> a \<le> x)
         \<and> (\<forall>y. get_earliest_arrival_time_at_target (profile_of s (arrival_stop c))
                    (arrival_time c + self_transfer_margin s) = Num y \<longrightarrow> a \<le> y)
         \<and> (\<exists>s_m.
                profile_of s_m (departure_stop c) =
                  fst (update_pareto_optimal_tuples (profile_of s (departure_stop c))
                         (ParetoTuple (Finite (departure_time c)) a))
              \<and> (\<forall>X. X \<noteq> departure_stop c \<longrightarrow> profile_of s_m X = profile_of s X)
              \<and> scan_connection s c =
                  (if snd (update_pareto_optimal_tuples (profile_of s (departure_stop c))
                             (ParetoTuple (Finite (departure_time c)) a))
                   then scan_footpaths_to_departure_stop s_m (departure_stop c)
                          (departure_time c) a
                   else Completed s_m))"
proof -
  let ?trip = "trip_of s (trip_id c)"
  let ?transfer = "transfer_arrival s c"
  have t: "get_earliest_arrival_time_at_target (profile_of s (arrival_stop c))
             (arrival_time c + self_transfer_margin s) = ?transfer"
    by (simp add: transfer_arrival_def)
  have "spec_best_arrival s c \<noteq> PosInf"
    using assms unfolding t spec_best_arrival_def by (simp add: min_num_PosInf_iff)
  then obtain a where best: "spec_best_arrival s c = Num a"
    by (cases "spec_best_arrival s c") simp_all
  have one: "Num a = ?trip \<or> Num a = ?transfer"
    using min_num_cases [of ?trip ?transfer] best by (auto simp: spec_best_arrival_def)
  have le1: "\<forall>x. ?trip = Num x \<longrightarrow> a \<le> x"
    using min_num_le(1) [of ?trip ?transfer] best by (auto simp: spec_best_arrival_def)
  have le2: "\<forall>y. ?transfer = Num y \<longrightarrow> a \<le> y"
    using min_num_le(2) [of ?trip ?transfer] best by (auto simp: spec_best_arrival_def)
  have step: "\<exists>s_m.
                profile_of s_m (departure_stop c) =
                  fst (update_pareto_optimal_tuples (profile_of s (departure_stop c))
                         (ParetoTuple (Finite (departure_time c)) a))
              \<and> (\<forall>X. X \<noteq> departure_stop c \<longrightarrow> profile_of s_m X = profile_of s X)
              \<and> scan_connection s c =
                  (if snd (update_pareto_optimal_tuples (profile_of s (departure_stop c))
                             (ParetoTuple (Finite (departure_time c)) a))
                   then scan_footpaths_to_departure_stop s_m (departure_stop c)
                          (departure_time c) a
                   else Completed s_m)"
    by (rule exI [of _ "merged_state s c a"])
       (simp add: merged_state_reads(1) scan_connection_reachable [OF best])
  from one le1 le2 step show ?thesis unfolding t by blast
qed

theorem scan_connection_merges_best_arrival_witness:
  "trip_of example_tracked (trip_id example_connection_5) = Num 17
   \<and> get_earliest_arrival_time_at_target
        (profile_of example_tracked (arrival_stop example_connection_5))
        (arrival_time example_connection_5 + self_transfer_margin example_tracked) = Num 32
   \<and> (\<exists>s_m.
          profile_of s_m 2 = NodeProfile [ParetoTuple (Finite 5) 17]
        \<and> profile_of s_m 3 = NodeProfile [ParetoTuple (Finite 20) 32]
        \<and> scan_connection example_tracked example_connection_5 =
            scan_footpaths_to_departure_stop s_m 2 5 17)"
proof -
  let ?c = example_connection_5
  have c: "trip_id ?c = 1" "arrival_stop ?c = 3" "departure_stop ?c = 2"
    "departure_time ?c = 5" "arrival_time ?c = 9"
    by (simp_all add: example_connection_5_def)
  have trip: "trip_of example_tracked (trip_id ?c) = Num 17"
    by (simp add: c example_tracked_reads)
  have transfer: "get_earliest_arrival_time_at_target
        (profile_of example_tracked (arrival_stop ?c))
        (arrival_time ?c + self_transfer_margin example_tracked) = Num 32"
    by (simp add: c example_tracked_reads min_num_def num_less_def)
  have h: "trip_of example_tracked (trip_id ?c) \<noteq> PosInf
           \<or> get_earliest_arrival_time_at_target
                (profile_of example_tracked (arrival_stop ?c))
                (arrival_time ?c + self_transfer_margin example_tracked) \<noteq> PosInf"
    by (simp add: trip)
  from scan_connection_merges_best_arrival [OF h]
  obtain a s_m where a: "Num a = trip_of example_tracked (trip_id ?c)
            \<or> Num a = get_earliest_arrival_time_at_target
                         (profile_of example_tracked (arrival_stop ?c))
                         (arrival_time ?c + self_transfer_margin example_tracked)"
    and le: "\<forall>x. trip_of example_tracked (trip_id ?c) = Num x \<longrightarrow> a \<le> x"
    and sm: "profile_of s_m (departure_stop ?c) =
                  fst (update_pareto_optimal_tuples
                         (profile_of example_tracked (departure_stop ?c))
                         (ParetoTuple (Finite (departure_time ?c)) a))"
      "\<forall>X. X \<noteq> departure_stop ?c \<longrightarrow> profile_of s_m X = profile_of example_tracked X"
      "scan_connection example_tracked ?c =
                  (if snd (update_pareto_optimal_tuples
                             (profile_of example_tracked (departure_stop ?c))
                             (ParetoTuple (Finite (departure_time ?c)) a))
                   then scan_footpaths_to_departure_stop s_m (departure_stop ?c)
                          (departure_time ?c) a
                   else Completed s_m)"
    by blast
  have "a \<le> 17" using le trip by simp
  moreover have "a = 17 \<or> a = 32" using a unfolding trip transfer by auto
  ultimately have a17: "a = 17" by auto
  have "profile_of s_m 2 = NodeProfile [ParetoTuple (Finite 5) 17]"
    using sm(1) unfolding a17 c by (simp add: example_tracked_reads)
  moreover have "profile_of s_m 3 = NodeProfile [ParetoTuple (Finite 20) 32]"
    using sm(2) unfolding c by (simp add: example_tracked_reads)
  moreover have "scan_connection example_tracked ?c =
            scan_footpaths_to_departure_stop s_m 2 5 17"
    using sm(3) unfolding a17 c by (simp add: example_tracked_reads)
  ultimately show ?thesis using trip transfer by blast
qed


text \<open>
  Claim C2. For a connection with a finite best arrival \<open>a\<close> and a nonzero walk
  speed, the step completes and the frontiers afterwards are these: when the merge of
  \<open>(departure_time c, a)\<close> at the departure location \<open>L\<close> reported no change,
  every frontier is as before; when it reported a change, every location \<open>X\<close> holds
  its frontier (the merged one at \<open>L\<close>) with exactly the tuples
  \<open>(departure_time c - d / walk_speed, a)\<close> of the edges from \<open>L\<close> to \<open>X\<close> merged
  in, the difference and the quotient being the float operations of line 124, and
  nothing more, whatever those merges changed. The footpath scan alone does the same
  from any location and tuple, and leaves the trip tracker alone.
\<close>

theorem footpath_scan_iff_changed_one_hop:
  assumes best: "min_num (trip_of s (trip_id c))
             (get_earliest_arrival_time_at_target (profile_of s (arrival_stop c))
                (arrival_time c + self_transfer_margin s)) = Num a"
    and ws: "self_walk_speed s \<noteq> 0"
  shows "(\<exists>s'. scan_connection s c = Completed s'
           \<and> (\<forall>X. profile_of s' X =
                 (if snd (update_pareto_optimal_tuples (profile_of s (departure_stop c))
                            (ParetoTuple (Finite (departure_time c)) a))
                  then merged_along_footpaths (self_walk_speed s) (departure_time c) a X
                         (if X = departure_stop c
                          then fst (update_pareto_optimal_tuples
                                      (profile_of s (departure_stop c))
                                      (ParetoTuple (Finite (departure_time c)) a))
                          else profile_of s X)
                         (self_walk_network s (departure_stop c))
                  else profile_of s X)))
       \<and> (\<exists>s'. scan_footpaths_to_departure_stop s L dep arr = Completed s'
           \<and> (\<forall>X. profile_of s' X =
                 merged_along_footpaths (self_walk_speed s) dep arr X (profile_of s X)
                   (self_walk_network s L))
           \<and> self_trip_min_arrival_time s' = self_trip_min_arrival_time s)"
proof (rule conjI)
  have b: "spec_best_arrival s c = Num a"
    using best by (simp add: spec_best_arrival_def transfer_arrival_def)
  let ?m = "update_pareto_optimal_tuples (profile_of s (departure_stop c))
              (ParetoTuple (Finite (departure_time c)) a)"
  let ?sm = "merged_state s c a"
  have inputs: "same_inputs s ?sm" by (rule merged_state_reads(3))
  show "\<exists>s'. scan_connection s c = Completed s'
           \<and> (\<forall>X. profile_of s' X =
                 (if snd ?m
                  then merged_along_footpaths (self_walk_speed s) (departure_time c) a X
                         (if X = departure_stop c then fst ?m else profile_of s X)
                         (self_walk_network s (departure_stop c))
                  else profile_of s X))"
  proof (cases "snd ?m")
    case False
    then have "fst ?m = profile_of s (departure_stop c)" by (rule update_unchanged)
    then have "\<forall>X. profile_of ?sm X = profile_of s X"
      by (simp add: merged_state_reads(1))
    with False show ?thesis
      by (simp add: scan_connection_reachable [OF b])
  next
    case True
    have ws': "self_walk_speed ?sm \<noteq> 0"
      using ws inputs by (simp add: same_inputs_def)
    from scan_footpaths_to_departure_stop_completes
           [OF ws', of "departure_stop c" "departure_time c" a]
    obtain s' where s':
      "scan_footpaths_to_departure_stop ?sm (departure_stop c) (departure_time c) a
         = Completed s'"
      "\<forall>X. profile_of s' X =
         merged_along_footpaths (self_walk_speed ?sm) (departure_time c) a X
           (profile_of ?sm X) (self_walk_network ?sm (departure_stop c))"
      by blast
    have eqs: "self_walk_speed ?sm = self_walk_speed s"
      "self_walk_network ?sm = self_walk_network s"
      using inputs by (simp_all add: same_inputs_def)
    have "\<forall>X. profile_of s' X =
         merged_along_footpaths (self_walk_speed s) (departure_time c) a X
           (if X = departure_stop c then fst ?m else profile_of s X)
           (self_walk_network s (departure_stop c))"
      using s'(2) unfolding eqs merged_state_reads(1) by simp
    with True s'(1) show ?thesis
      by (simp add: scan_connection_reachable [OF b])
  qed
next
  from scan_footpaths_to_departure_stop_completes [OF ws, of L dep arr]
  show "\<exists>s'. scan_footpaths_to_departure_stop s L dep arr = Completed s'
           \<and> (\<forall>X. profile_of s' X =
                 merged_along_footpaths (self_walk_speed s) dep arr X (profile_of s X)
                   (self_walk_network s L))
           \<and> self_trip_min_arrival_time s' = self_trip_min_arrival_time s"
    by blast
qed

theorem footpath_scan_iff_changed_one_hop_witness:
  "min_num (trip_of example_tenths (trip_id example_connection_7))
     (get_earliest_arrival_time_at_target
        (profile_of example_tenths (arrival_stop example_connection_7))
        (arrival_time example_connection_7 + self_transfer_margin example_tenths))
     = Num 60
   \<and> self_walk_speed example_tenths \<noteq> 0
   \<and> snd (update_pareto_optimal_tuples
            (profile_of example_tenths (departure_stop example_connection_7))
            (ParetoTuple (Finite (departure_time example_connection_7)) 60))
   \<and> (\<exists>s'. scan_connection example_tenths example_connection_7 = Completed s'
         \<and> profile_of s' 1 = NodeProfile [ParetoTuple (Finite 20) 60]
         \<and> profile_of s' 2 =
             NodeProfile
               [ParetoTuple (Finite (2814749767106559 / 281474976710656)) 50,
                ParetoTuple (Finite 10) 60]
         \<and> profile_of s' 3 = profile_of example_tenths 3)
   \<and> (\<exists>s'. scan_footpaths_to_departure_stop example_tenths 3 100 200 = Completed s'
         \<and> profile_of s' 1 = NodeProfile []
         \<and> profile_of s' 2 =
             NodeProfile
               [ParetoTuple (Finite (2814749767106559 / 281474976710656)) 50,
                ParetoTuple (Finite 70) 200])"
proof -
  let ?c = example_connection_7
  have c: "trip_id ?c = 4" "arrival_stop ?c = 0" "departure_stop ?c = 1"
    "departure_time ?c = 20" "arrival_time ?c = 60"
    by (simp_all add: example_connection_7_def)
  have h: "min_num (trip_of example_tenths (trip_id ?c))
     (get_earliest_arrival_time_at_target
        (profile_of example_tenths (arrival_stop ?c))
        (arrival_time ?c + self_transfer_margin example_tenths))
     = Num 60"
    by (simp add: c example_tenths_reads min_num_def num_less_def)
  have w: "self_walk_speed example_tenths \<noteq> 0"
    by (simp add: example_tenths_reads)
  have m: "snd (update_pareto_optimal_tuples
            (profile_of example_tenths (departure_stop ?c))
            (ParetoTuple (Finite (departure_time ?c)) 60))"
    by (simp add: c example_tenths_reads)
  from footpath_scan_iff_changed_one_hop [OF h w, of 3 100 200]
  obtain s' s'' where s': "scan_connection example_tenths ?c = Completed s'"
    "\<forall>X. profile_of s' X =
                 (if snd (update_pareto_optimal_tuples
                            (profile_of example_tenths (departure_stop ?c))
                            (ParetoTuple (Finite (departure_time ?c)) 60))
                  then merged_along_footpaths (self_walk_speed example_tenths)
                         (departure_time ?c) 60 X
                         (if X = departure_stop ?c
                          then fst (update_pareto_optimal_tuples
                                      (profile_of example_tenths (departure_stop ?c))
                                      (ParetoTuple (Finite (departure_time ?c)) 60))
                          else profile_of example_tenths X)
                         (self_walk_network example_tenths (departure_stop ?c))
                  else profile_of example_tenths X)"
    and s'': "scan_footpaths_to_departure_stop example_tenths 3 100 200 = Completed s''"
    "\<forall>X. profile_of s'' X =
           merged_along_footpaths (self_walk_speed example_tenths) 100 200 X
             (profile_of example_tenths X) (self_walk_network example_tenths 3)"
    by blast
  have a: "profile_of s' 1 = NodeProfile [ParetoTuple (Finite 20) 60]"
    "profile_of s' 2 =
             NodeProfile
               [ParetoTuple (Finite (2814749767106559 / 281474976710656)) 50,
                ParetoTuple (Finite 10) 60]"
    "profile_of s' 3 = profile_of example_tenths 3"
    unfolding s'(2) [rule_format] c
    by (simp_all add: example_tenths_reads example_walk_network_tenths_def
          tenths_departures dominates_def less_pyfloat_def)
  have b: "profile_of s'' 1 = NodeProfile []"
    "profile_of s'' 2 =
             NodeProfile
               [ParetoTuple (Finite (2814749767106559 / 281474976710656)) 50,
                ParetoTuple (Finite 70) 200]"
    unfolding s''(2) [rule_format]
    by (simp_all add: example_tenths_reads example_walk_network_tenths_def
          tenths_departures dominates_def less_pyfloat_def)
  from h w m s'(1) s''(1) a b show ?thesis by blast
qed

text \<open>
  Claim C3. Scanning \<open>c\<close> changes the tracker at most at \<open>trip_id c\<close>, and there
  exactly when the stored value is strictly greater than the best arrival; the value
  written is the transfer arrival, which then equals the best arrival and is strictly
  smaller than the value it replaces. No key is removed. Along the whole loop, run to
  its end or to an abort, every trip's value is at most what it was and no key is
  removed.
\<close>

theorem trip_tracker_only_decreases:
  "(\<forall>T. trip_of (state_of (scan_connection s c)) T =
          (if T = trip_id c \<and> num_less (spec_best_arrival s c) (trip_of s (trip_id c))
           then transfer_arrival s c else trip_of s T))
   \<and> (num_less (spec_best_arrival s c) (trip_of s (trip_id c)) \<longrightarrow>
        transfer_arrival s c = spec_best_arrival s c
        \<and> num_less (transfer_arrival s c) (trip_of s (trip_id c)))
   \<and> dom (self_trip_min_arrival_time s)
       \<subseteq> dom (self_trip_min_arrival_time (state_of (scan_connection s c)))
   \<and> (\<forall>T. num_le (trip_of (state_of (run_loop s l cs)) T) (trip_of s T))
   \<and> dom (self_trip_min_arrival_time s)
       \<subseteq> dom (self_trip_min_arrival_time (state_of (run_loop s l cs)))"
proof -
  have "num_less (spec_best_arrival s c) (trip_of s (trip_id c)) \<longrightarrow>
        transfer_arrival s c = spec_best_arrival s c
        \<and> num_less (transfer_arrival s c) (trip_of s (trip_id c))"
    unfolding spec_best_arrival_def
    by (auto simp: num_less_min_iff min_num_def)
  then show ?thesis
    using scan_connection_trip [of s c] scan_connection_trip_dom [of s c]
      run_loop_trip [of s l cs]
    by simp
qed

theorem trip_tracker_only_decreases_witness:
  "num_less (spec_best_arrival (example_profiler 0) example_connection_1)
     (trip_of (example_profiler 0) (trip_id example_connection_1))
   \<and> trip_of (example_profiler 0) 1 = PosInf
   \<and> trip_of (state_of (scan_connection (example_profiler 0) example_connection_1)) 1
       = Num 15
   \<and> trip_of (state_of (scan_connection (example_profiler 0) example_connection_1)) 2
       = PosInf
   \<and> transfer_arrival (example_profiler 0) example_connection_1
       = spec_best_arrival (example_profiler 0) example_connection_1"
proof -
  have h: "num_less (spec_best_arrival (example_profiler 0) example_connection_1)
     (trip_of (example_profiler 0) (trip_id example_connection_1))"
    by (simp add: spec_best_arrival_def transfer_arrival_def example_defs)
  note t = trip_tracker_only_decreases
             [of "example_profiler 0" example_connection_1 PosInf
                 "self_connections (example_profiler 0)"]
  from t have
    r: "\<forall>T. trip_of (state_of (scan_connection (example_profiler 0) example_connection_1)) T =
          (if T = trip_id example_connection_1
              \<and> num_less (spec_best_arrival (example_profiler 0) example_connection_1)
                   (trip_of (example_profiler 0) (trip_id example_connection_1))
           then transfer_arrival (example_profiler 0) example_connection_1
           else trip_of (example_profiler 0) T)"
    by blast
  from t h have
    e: "transfer_arrival (example_profiler 0) example_connection_1
       = spec_best_arrival (example_profiler 0) example_connection_1"
    by blast
  have "trip_of (example_profiler 0) 1 = PosInf"
    by (simp add: example_defs)
  moreover have
    "trip_of (state_of (scan_connection (example_profiler 0) example_connection_1)) 1
       = Num 15"
    "trip_of (state_of (scan_connection (example_profiler 0) example_connection_1)) 2
       = PosInf"
    unfolding r [rule_format]
    by (simp_all add: spec_best_arrival_def transfer_arrival_def example_defs)
  ultimately show ?thesis using h e by blast
qed

text \<open>
  Claim C4. When both the transfer query and the tracker's value are unreachable, the
  step completes with every location's frontier and every trip's tracked value as
  they were; the step only stores the defaults of the keys it read, so every entry
  already in either dictionary is still there, unchanged. No footpath tuple arrives
  anywhere.
\<close>

theorem scan_connection_unreachable_is_skipped:
  assumes "min_num (trip_of s (trip_id c))
             (get_earliest_arrival_time_at_target (profile_of s (arrival_stop c))
                (arrival_time c + self_transfer_margin s)) = PosInf"
  shows "\<exists>s'. scan_connection s c = Completed s'
           \<and> (\<forall>X. profile_of s' X = profile_of s X)
           \<and> (\<forall>T. trip_of s' T = trip_of s T)
           \<and> self_stop_profiles s \<subseteq>\<^sub>m self_stop_profiles s'
           \<and> self_trip_min_arrival_time s \<subseteq>\<^sub>m self_trip_min_arrival_time s'"
proof -
  have best: "spec_best_arrival s c = PosInf"
    using assms by (simp add: spec_best_arrival_def transfer_arrival_def)
  show ?thesis
    by (rule exI [of _ "touched s c"])
       (simp add: scan_connection_unreachable [OF best] touched_map_le)
qed

theorem scan_connection_unreachable_is_skipped_witness:
  "min_num (trip_of (example_profiler 0) (trip_id example_connection_2))
     (get_earliest_arrival_time_at_target
        (profile_of (example_profiler 0) (arrival_stop example_connection_2))
        (arrival_time example_connection_2 + self_transfer_margin (example_profiler 0)))
     = PosInf
   \<and> (\<exists>s'. scan_connection (example_profiler 0) example_connection_2 = Completed s'
           \<and> (\<forall>X. profile_of s' X = profile_of (example_profiler 0) X)
           \<and> (\<forall>T. trip_of s' T = trip_of (example_profiler 0) T)
           \<and> self_stop_profiles (example_profiler 0) \<subseteq>\<^sub>m self_stop_profiles s'
           \<and> self_trip_min_arrival_time (example_profiler 0)
                \<subseteq>\<^sub>m self_trip_min_arrival_time s')"
proof -
  have h: "min_num (trip_of (example_profiler 0) (trip_id example_connection_2))
     (get_earliest_arrival_time_at_target
        (profile_of (example_profiler 0) (arrival_stop example_connection_2))
        (arrival_time example_connection_2 + self_transfer_margin (example_profiler 0)))
     = PosInf"
    by (simp add: example_defs)
  from scan_connection_unreachable_is_skipped [OF h] h show ?thesis by blast
qed

text \<open>
  Claim C5. Let the connection \<open>c\<close> depart strictly later than the connection before
  it, the last of \<open>pre\<close>. A fresh instance then aborts, in exactly the state the loop
  over \<open>pre\<close> alone ends in: neither \<open>c\<close> nor anything after it is scanned. The
  completion flag stays unset, so reading the result fails. When \<open>c\<close> is the first
  such connection and the walk speed is not zero, the loop over \<open>pre\<close> runs to its
  end and it is the assertion that aborts the sweep.
\<close>

theorem run_aborts_at_order_violation:
  assumes "pre \<noteq> []"
    and "departure_time (last pre) < departure_time c"
    and "self_connections s = pre @ c # post"
    and "\<not> self_has_run s"
  shows "\<exists>e. private_run s = Aborted e (state_of (run_loop s PosInf pre))
             \<and> run s = Aborted e (state_of (run_loop s PosInf pre))
             \<and> stop_profiles (state_of (run_loop s PosInf pre)) = Inl AssertionError
             \<and> (self_walk_speed s \<noteq> 0
                  \<and> successively (\<lambda>x y. departure_time y \<le> departure_time x) pre
                \<longrightarrow> e = AssertionError \<and> is_completed (run_loop s PosInf pre))"
proof -
  let ?mid = "state_of (run_loop s PosInf pre)"
  have v: "\<not> num_le (Num (departure_time c)) (Num (departure_time (last pre)))"
    using assms(2) by simp
  have f: "stop_profiles ?mid = Inl AssertionError"
    using assms(4) by (simp add: stop_profiles_def run_loop_has_run)
  have ok: "is_completed (run_loop s PosInf pre)"
    if "self_walk_speed s \<noteq> 0"
      "successively (\<lambda>x y. departure_time y \<le> departure_time x) pre"
    using run_loop_completed_iff [OF that(1), of PosInf pre] that(2) by simp
  show ?thesis
  proof (cases "run_loop s PosInf pre")
    case (Completed s')
    then have "private_run s = Aborted AssertionError ?mid"
      unfolding private_run_def assms(3) run_loop_append using assms(1) v by simp
    with f ok assms(4) show ?thesis by (simp add: run_def)
  next
    case (Aborted e s')
    then have p: "private_run s = Aborted e ?mid"
      unfolding private_run_def assms(3) run_loop_append by simp
    have "\<not> is_completed (run_loop s PosInf pre)" using Aborted by simp
    with p f ok assms(4) show ?thesis by (auto simp: run_def)
  qed
qed

theorem run_aborts_at_order_violation_witness:
  "[example_connection_1, example_connection_2] \<noteq> []
   \<and> departure_time (last [example_connection_1, example_connection_2])
        < departure_time example_connection_3
   \<and> self_connections example_unsorted
        = [example_connection_1, example_connection_2] @ example_connection_3 # []
   \<and> \<not> self_has_run example_unsorted
   \<and> self_walk_speed example_unsorted \<noteq> 0
   \<and> successively (\<lambda>x y. departure_time y \<le> departure_time x)
        [example_connection_1, example_connection_2]
   \<and> run example_unsorted =
        Aborted AssertionError
          (state_of (run_loop example_unsorted PosInf
                       [example_connection_1, example_connection_2]))
   \<and> is_completed (run_loop example_unsorted PosInf
                       [example_connection_1, example_connection_2])
   \<and> stop_profiles (state_of (run_loop example_unsorted PosInf
                                  [example_connection_1, example_connection_2]))
        = Inl AssertionError"
proof -
  have h1: "[example_connection_1, example_connection_2] \<noteq> []" by simp
  have h2: "departure_time (last [example_connection_1, example_connection_2])
        < departure_time example_connection_3"
    by (simp add: example_defs example_connection_3_def)
  have h3: "self_connections example_unsorted
        = [example_connection_1, example_connection_2] @ example_connection_3 # []"
    by (simp add: example_unsorted_def init_def)
  have h4: "\<not> self_has_run example_unsorted"
    by (simp add: example_unsorted_def init_def)
  have h5: "self_walk_speed example_unsorted \<noteq> 0"
    by (simp add: example_unsorted_def init_def)
  have h6: "successively (\<lambda>x y. departure_time y \<le> departure_time x)
        [example_connection_1, example_connection_2]"
    by (simp add: example_defs)
  from run_aborts_at_order_violation [OF h1 h2 h3 h4] h5 h6 h1 h2 h3 h4
  show ?thesis by blast
qed

text \<open>
  Claim C6. The property fails with the assertion exactly when the completion flag is
  unset, and returns the frontier mapping otherwise. A new instance has the flag
  unset; the loop of the sweep never sets it, so the read fails in every state the
  loop reaches, also after an abort; a completed run sets it, and the read then
  returns the mapping.
\<close>

theorem stop_profiles_fails_before_completion:
  "stop_profiles s =
     (if self_has_run s then Inr (self_stop_profiles s) else Inl AssertionError)
   \<and> stop_profiles (init evs tgt st et m w ws) = Inl AssertionError
   \<and> (\<not> self_has_run s \<longrightarrow> stop_profiles (state_of (run_loop s l cs)) = Inl AssertionError)
   \<and> (\<forall>s'. run s = Completed s' \<longrightarrow> stop_profiles s' = Inr (self_stop_profiles s'))
   \<and> (\<forall>e s'. \<not> self_has_run s \<and> run s = Aborted e s' \<longrightarrow>
               stop_profiles s' = Inl AssertionError)"
proof -
  have a: "stop_profiles s =
     (if self_has_run s then Inr (self_stop_profiles s) else Inl AssertionError)"
    by (simp add: stop_profiles_def)
  have b: "stop_profiles (init evs tgt st et m w ws) = Inl AssertionError"
    by (simp add: stop_profiles_def init_def)
  have c: "\<not> self_has_run s \<longrightarrow> stop_profiles (state_of (run_loop s l cs)) = Inl AssertionError"
    by (simp add: stop_profiles_def run_loop_has_run)
  have d: "\<forall>s'. run s = Completed s' \<longrightarrow> stop_profiles s' = Inr (self_stop_profiles s')"
    by (auto simp: run_def stop_profiles_def split: if_splits outcome.splits)
  have e: "\<forall>e s'. \<not> self_has_run s \<and> run s = Aborted e s' \<longrightarrow>
               stop_profiles s' = Inl AssertionError"
  proof (intro allI impI, elim conjE)
    fix e s' assume h: "\<not> self_has_run s" and r: "run s = Aborted e s'"
    then have "private_run s = Aborted e s'"
      by (auto simp: run_def split: outcome.splits)
    then have "self_has_run s' = self_has_run s"
      using run_loop_has_run [of s PosInf "self_connections s"] by (simp add: private_run_def)
    with h show "stop_profiles s' = Inl AssertionError" by (simp add: stop_profiles_def)
  qed
  from a b c d e show ?thesis by blast
qed

theorem stop_profiles_fails_before_completion_witness:
  "\<not> self_has_run (example_profiler 0)
   \<and> stop_profiles (example_profiler 0) = Inl AssertionError
   \<and> stop_profiles (state_of (run_loop (example_profiler 0) PosInf [example_connection_1]))
       = Inl AssertionError
   \<and> is_completed (run (example_profiler 0))
   \<and> stop_profiles (state_of (run (example_profiler 0)))
       = Inr (self_stop_profiles (state_of (run (example_profiler 0))))
   \<and> self_stop_profiles (state_of (run (example_profiler 0))) 2
       = Some (NodeProfile [ParetoTuple (Finite (19 / 2)) 15])"
proof -
  have h: "\<not> self_has_run (example_profiler 0)"
    by (simp add: example_defs)
  note t = stop_profiles_fails_before_completion
             [of "example_profiler 0" _ _ _ _ _ _ _ PosInf "[example_connection_1]"]
  have ws: "self_walk_speed (example_profiler 0) \<noteq> 0" by (simp add: example_defs)
  have "is_completed (private_run (example_profiler 0))"
    unfolding private_run_def run_loop_completed_iff [OF ws] by (simp add: example_defs)
  then have c: "is_completed (run (example_profiler 0))"
    using h by (cases "private_run (example_profiler 0)") (simp_all add: run_def)
  then have r: "run (example_profiler 0) = Completed (state_of (run (example_profiler 0)))"
    by (cases "run (example_profiler 0)") simp_all
  have v: "self_stop_profiles (state_of (run (example_profiler 0))) 2
       = Some (NodeProfile [ParetoTuple (Finite (19 / 2)) 15])"
    by (simp add: run_def private_run_def scan_connection_def getitem_stop_profiles_def
          getitem_trip_min_arrival_time_def scan_footpaths_to_departure_stop_def Let_def
          dominates_def example_defs)
  from t h have "stop_profiles (example_profiler 0) = Inl AssertionError"
    by presburger
  moreover from t h have
    "stop_profiles (state_of (run_loop (example_profiler 0) PosInf [example_connection_1]))
       = Inl AssertionError"
    by blast
  moreover from t r have "stop_profiles (state_of (run (example_profiler 0)))
       = Inr (self_stop_profiles (state_of (run (example_profiler 0))))"
    by blast
  ultimately show ?thesis using h c v by blast
qed

text \<open>
  Claim C7. Two instances built from the same connections, target, margin, walk
  network and walk speed, with any two query windows, sweep alike: both complete or
  both abort, they leave the same mapping of frontiers, and reading the result gives
  the same answer.
\<close>

theorem stop_profiles_independent_of_window:
  "is_completed (run (init evs tgt st1 et1 m w ws))
     = is_completed (run (init evs tgt st2 et2 m w ws))
   \<and> self_stop_profiles (state_of (run (init evs tgt st1 et1 m w ws)))
     = self_stop_profiles (state_of (run (init evs tgt st2 et2 m w ws)))
   \<and> stop_profiles (state_of (run (init evs tgt st1 et1 m w ws)))
     = stop_profiles (state_of (run (init evs tgt st2 et2 m w ws)))"
proof -
  have "run (init evs tgt st1 et1 m w ws)
          = map_outcome (with_window st1 et1) (run (init evs tgt st2 et2 m w ws))"
    unfolding init_with_window [of evs tgt st1 et1 m w ws st2 et2] by (rule with_window_run)
  then show ?thesis by (simp add: stop_profiles_def)
qed

text \<open>
  Claim C8, as stated, fails. In the small network every connection time, the margin
  0 and the walk distance 1 are integers and the walk speed 2 is positive, yet the
  sweep leaves at stop 2 the footpath tuple departing at \<open>10 - 1 / 2 = 19 / 2\<close>, a
  difference and a quotient that floats compute without rounding.
\<close>

theorem footpath_departure_time_not_integer:
  "int_connection example_connection_1 \<and> int_connection example_connection_2
   \<and> self_transfer_margin (example_profiler 0) \<in> \<int>
   \<and> example_walk_network 1 = [(2, 1)] \<and> (1 :: rat) \<in> \<int>
   \<and> 0 < self_walk_speed (example_profiler 0)
   \<and> is_completed (run (example_profiler 0))
   \<and> profile_of (state_of (run (example_profiler 0))) 2
       = NodeProfile [ParetoTuple (Finite (19 / 2)) 15]
   \<and> \<not> int_tuple (ParetoTuple (Finite (19 / 2)) 15)
   \<and> \<not> all_tuples int_tuple (state_of (run (example_profiler 0)))"
proof -
  have v: "profile_of (state_of (run (example_profiler 0))) 2
       = NodeProfile [ParetoTuple (Finite (19 / 2)) 15]"
    by (simp add: run_def private_run_def scan_connection_def getitem_stop_profiles_def
          getitem_trip_min_arrival_time_def scan_footpaths_to_departure_stop_def Let_def
          dominates_def example_defs)
  have n: "\<not> int_tuple (ParetoTuple (Finite (19 / 2)) 15)"
    by (simp add: int_tuple_def int_departure_def)
  have "\<not> all_in_profile int_tuple (profile_of (state_of (run (example_profiler 0))) 2)"
    unfolding v using n by (simp add: all_in_profile_def)
  then have s: "\<not> all_tuples int_tuple (state_of (run (example_profiler 0)))"
    unfolding all_tuples_def by blast
  have c: "is_completed (run (example_profiler 0))"
    by (simp add: run_def private_run_def scan_connection_def getitem_stop_profiles_def
          getitem_trip_min_arrival_time_def scan_footpaths_to_departure_stop_def Let_def
          dominates_def example_defs)
  have "int_connection example_connection_1" "int_connection example_connection_2"
    "self_transfer_margin (example_profiler 0) \<in> \<int>"
    "example_walk_network 1 = [(2, 1)]" "(1 :: rat) \<in> \<int>"
    "0 < self_walk_speed (example_profiler 0)"
    by (simp_all add: int_connection_def example_defs)
  with v n s c show ?thesis by blast
qed

text \<open>
  Claim C8, amended. When all connection times and the margin are integers and the
  walk speed is positive, every arrival time is an exact integer: in the state the
  sweep ends in, all tuples of all frontiers have integer arrival times and all
  tracked trip values are integers, every tuple merged while a connection is scanned
  has an integer arrival time, and the tuple merged at the connection's departure
  location has the connection's integer departure time. The departure time of a
  footpath tuple is the float \<open>dep - d / walk_speed\<close>. When moreover the departure
  times are below \<open>2 ^ 52\<close> and every walk edge takes an integer time that the float
  division finds exactly, no operation rounds: every footpath tuple departs at the exact
  integer \<open>dep - d / walk_speed\<close>, and every merged and every stored tuple has integer
  times.
\<close>

theorem integer_arrivals_and_exact_walks:
  assumes "list_all int_connection evs"
    and "m \<in> \<int>"
    and "0 < ws"
  shows "all_tuples int_arrival (state_of (run (init evs tgt st et m w ws)))
       \<and> int_tracker (state_of (run (init evs tgt st et m w ws)))
       \<and> (\<forall>pre c post. evs = pre @ c # post \<longrightarrow>
             list_all (\<lambda>(k, t). int_arrival t)
               (spec_merges (state_of (run_loop (init evs tgt st et m w ws) PosInf pre)) c)
           \<and> list_all (\<lambda>(k, t). int_tuple t)
               (take 1
                  (spec_merges (state_of (run_loop (init evs tgt st et m w ws) PosInf pre))
                     c)))
       \<and> (small_departures evs \<and> exact_integer_walks w ws \<longrightarrow>
             all_tuples int_tuple (state_of (run (init evs tgt st et m w ws)))
           \<and> (\<forall>pre c post. evs = pre @ c # post \<longrightarrow>
                 list_all (\<lambda>(k, t). int_tuple t)
                   (spec_merges
                      (state_of (run_loop (init evs tgt st et m w ws) PosInf pre)) c))
           \<and> (\<forall>c \<in> set evs. \<forall>(n, d) \<in> set (w (departure_stop c)).
                 walk_departure (departure_time c) d ws
                   = Finite (departure_time c - d / ws)
               \<and> departure_time c - d / ws \<in> \<int>))"
proof -
  let ?ini = "init evs tgt st et m w ws"
  have f: "self_connections ?ini = evs" "self_transfer_margin ?ini = m"
    "self_walk_network ?ini = w" "self_walk_speed ?ini = ws" "\<not> self_has_run ?ini"
    by (simp_all add: init_def)
  have loop: "all_tuples int_arrival (state_of (run_loop ?ini PosInf cs))
              \<and> int_tracker (state_of (run_loop ?ini PosInf cs))"
    if "list_all int_connection cs" for cs
    using that assms(2) by (intro int_arrivals_run_loop int_arrivals_init) (simp_all add: f)
  have mid: "self_transfer_margin (state_of (run_loop ?ini PosInf cs)) = m"
    "self_walk_network (state_of (run_loop ?ini PosInf cs)) = w"
    "self_walk_speed (state_of (run_loop ?ini PosInf cs)) = ws" for cs
    using run_loop_frame [of ?ini PosInf cs] by (simp_all add: same_inputs_def f)
  have a1: "all_tuples int_arrival (state_of (run ?ini))"
    and a2: "int_tracker (state_of (run ?ini))"
    using loop [OF assms(1)] by (simp_all add: all_tuples_run int_tracker_run f)
  have a3: "\<forall>pre c post. evs = pre @ c # post \<longrightarrow>
             list_all (\<lambda>(k, t). int_arrival t)
               (spec_merges (state_of (run_loop ?ini PosInf pre)) c)
           \<and> list_all (\<lambda>(k, t). int_tuple t)
               (take 1 (spec_merges (state_of (run_loop ?ini PosInf pre)) c))"
  proof (intro allI impI)
    fix pre c post assume evs: "evs = pre @ c # post"
    have pre: "list_all int_connection pre" and c: "int_connection c"
      using assms(1) unfolding evs by simp_all
    show "list_all (\<lambda>(k, t). int_arrival t)
               (spec_merges (state_of (run_loop ?ini PosInf pre)) c)
           \<and> list_all (\<lambda>(k, t). int_tuple t)
               (take 1 (spec_merges (state_of (run_loop ?ini PosInf pre)) c))"
      using loop [OF pre] c assms(2)
      by (intro conjI spec_merges_int_arrival) (simp_all add: mid)
  qed
  have b: "all_tuples int_tuple (state_of (run ?ini))
           \<and> (\<forall>pre c post. evs = pre @ c # post \<longrightarrow>
                 list_all (\<lambda>(k, t). int_tuple t)
                   (spec_merges (state_of (run_loop ?ini PosInf pre)) c))
           \<and> (\<forall>c \<in> set evs. \<forall>(n, d) \<in> set (w (departure_stop c)).
                 walk_departure (departure_time c) d ws
                   = Finite (departure_time c - d / ws)
               \<and> departure_time c - d / ws \<in> \<int>)"
    if small: "small_departures evs" and exact: "exact_integer_walks w ws"
  proof (intro conjI allI impI ballI)
    have "all_tuples int_departure (state_of (run_loop ?ini PosInf evs))"
      using assms(1) small exact
      by (intro int_departures_run_loop all_tuples_init) (simp_all add: f)
    then show "all_tuples int_tuple (state_of (run ?ini))"
      using a1 by (simp add: all_tuples_int_tuple all_tuples_run f)
  next
    fix pre c post assume evs: "evs = pre @ c # post"
    have pre: "list_all int_connection pre" and c: "int_connection c"
      and sc: "\<bar>departure_time c\<bar> < 2 ^ 52"
      using assms(1) small unfolding evs small_departures_def by simp_all
    show "list_all (\<lambda>(k, t). int_tuple t)
            (spec_merges (state_of (run_loop ?ini PosInf pre)) c)"
      using loop [OF pre] c assms(2) sc exact
      by (intro spec_merges_int_tuple) (simp_all add: mid)
  next
    fix c e assume c: "c \<in> set evs" and e: "e \<in> set (w (departure_stop c))"
    obtain n d where nd: "e = (n, d)" by (cases e)
    have ic: "departure_time c \<in> \<int>" "\<bar>departure_time c\<bar> < 2 ^ 52"
      using assms(1) small c by (auto simp: list_all_iff int_connection_def small_departures_def)
    have "exact_integer_walk d ws"
      using exact e unfolding nd exact_integer_walks_def by (auto simp: list_all_iff)
    from exact_integer_walk_departure [OF ic this]
    show "case e of (n, d) \<Rightarrow>
            walk_departure (departure_time c) d ws = Finite (departure_time c - d / ws)
            \<and> departure_time c - d / ws \<in> \<int>"
      unfolding nd by simp
  qed
  from a1 a2 a3 b show ?thesis by blast
qed

theorem integer_arrivals_and_exact_walks_witness:
  "list_all int_connection [example_connection_1, example_connection_2]
   \<and> (0 :: rat) \<in> \<int>
   \<and> (0 :: rat) < 2
   \<and> small_departures [example_connection_1, example_connection_2]
   \<and> exact_integer_walks example_walk_network_even 2
   \<and> all_tuples int_arrival
        (state_of (run (init [example_connection_1, example_connection_2]
                          0 0 100 0 example_walk_network_even 2)))
   \<and> all_tuples int_tuple
        (state_of (run (init [example_connection_1, example_connection_2]
                          0 0 100 0 example_walk_network_even 2)))
   \<and> walk_departure 10 4 2 = Finite 8"
proof -
  have h1: "list_all int_connection [example_connection_1, example_connection_2]"
    by (simp add: int_connection_def example_defs)
  have h2: "(0 :: rat) \<in> \<int>" by simp
  have h3: "(0 :: rat) < 2" by simp
  have h4: "small_departures [example_connection_1, example_connection_2]"
    by (simp add: small_departures_def example_defs)
  note h5 = example_even_exact
  note t = integer_arrivals_and_exact_walks
             [OF h1 h2 h3, of 0 0 100 example_walk_network_even]
  from t have a: "all_tuples int_arrival
        (state_of (run (init [example_connection_1, example_connection_2]
                          0 0 100 0 example_walk_network_even 2)))"
    by blast
  from t h4 h5 have b: "all_tuples int_tuple
        (state_of (run (init [example_connection_1, example_connection_2]
                          0 0 100 0 example_walk_network_even 2)))"
    by blast
  from t h4 h5 have
    "\<forall>c \<in> set [example_connection_1, example_connection_2].
       \<forall>(n, d) \<in> set (example_walk_network_even (departure_stop c)).
         walk_departure (departure_time c) d 2 = Finite (departure_time c - d / 2)
         \<and> departure_time c - d / 2 \<in> \<int>"
    by blast
  then have "walk_departure 10 4 2 = Finite 8"
    by (simp add: example_connection_1_def example_walk_network_even_def)
  with h1 h2 h3 h4 h5 a b show ?thesis by blast
qed


text \<open>
  Claim C9. Let \<open>c\<close> arrive at the target, whose frontier is the identity profile,
  and let the tracker hold no value better than the transfer option. Then the target's
  frontier is asked at \<open>arrival_time c + transfer_margin\<close> and answers that time, the
  best arrival is that time, margin included, and the tuple merged at the departure
  location is \<open>(departure_time c, arrival_time c + transfer_margin)\<close>. The target of
  a new instance has the identity profile, and keeps it in every state the sweep
  reaches.
\<close>

theorem margin_charged_when_alighting_at_target:
  assumes "arrival_stop c = self_target s"
    and "profile_of s (self_target s) = IdentityNodeProfile"
    and "num_le (Num (arrival_time c + self_transfer_margin s)) (trip_of s (trip_id c))"
  shows "get_earliest_arrival_time_at_target (profile_of s (arrival_stop c))
             (arrival_time c + self_transfer_margin s)
           = Num (arrival_time c + self_transfer_margin s)
       \<and> spec_best_arrival s c = Num (arrival_time c + self_transfer_margin s)
       \<and> (\<exists>s_m.
             profile_of s_m (departure_stop c) =
               fst (update_pareto_optimal_tuples (profile_of s (departure_stop c))
                      (ParetoTuple (Finite (departure_time c))
                         (arrival_time c + self_transfer_margin s)))
           \<and> (\<forall>X. X \<noteq> departure_stop c \<longrightarrow> profile_of s_m X = profile_of s X)
           \<and> scan_connection s c =
               (if snd (update_pareto_optimal_tuples (profile_of s (departure_stop c))
                          (ParetoTuple (Finite (departure_time c))
                             (arrival_time c + self_transfer_margin s)))
                then scan_footpaths_to_departure_stop s_m (departure_stop c)
                       (departure_time c) (arrival_time c + self_transfer_margin s)
                else Completed s_m))
       \<and> profile_of (init evs tgt st et m w ws) tgt = IdentityNodeProfile
       \<and> profile_of (state_of (run_loop (init evs tgt st et m w ws) l cs)) tgt
           = IdentityNodeProfile"
proof -
  let ?a = "arrival_time c + self_transfer_margin s"
  have q: "get_earliest_arrival_time_at_target (profile_of s (arrival_stop c)) ?a = Num ?a"
    using assms(1,2) by simp
  then have "transfer_arrival s c = Num ?a" by (simp add: transfer_arrival_def)
  then have best: "spec_best_arrival s c = Num ?a"
    using assms(3) by (simp add: spec_best_arrival_def min_num_le_right)
  have step: "\<exists>s_m.
             profile_of s_m (departure_stop c) =
               fst (update_pareto_optimal_tuples (profile_of s (departure_stop c))
                      (ParetoTuple (Finite (departure_time c)) ?a))
           \<and> (\<forall>X. X \<noteq> departure_stop c \<longrightarrow> profile_of s_m X = profile_of s X)
           \<and> scan_connection s c =
               (if snd (update_pareto_optimal_tuples (profile_of s (departure_stop c))
                          (ParetoTuple (Finite (departure_time c)) ?a))
                then scan_footpaths_to_departure_stop s_m (departure_stop c)
                       (departure_time c) ?a
                else Completed s_m)"
    by (rule exI [of _ "merged_state s c ?a"])
       (simp add: merged_state_reads(1) scan_connection_reachable [OF best])
  have i: "profile_of (init evs tgt st et m w ws) tgt = IdentityNodeProfile"
    by (simp add: init_def profile_of_def)
  from run_loop_identity [OF i]
  have "profile_of (state_of (run_loop (init evs tgt st et m w ws) l cs)) tgt
           = IdentityNodeProfile" .
  with q best step i show ?thesis by blast
qed

theorem margin_charged_when_alighting_at_target_witness:
  "arrival_stop example_connection_1 = self_target (example_profiler 2)
   \<and> profile_of (example_profiler 2) (self_target (example_profiler 2)) = IdentityNodeProfile
   \<and> num_le (Num (arrival_time example_connection_1
                     + self_transfer_margin (example_profiler 2)))
        (trip_of (example_profiler 2) (trip_id example_connection_1))
   \<and> spec_best_arrival (example_profiler 2) example_connection_1 = Num 17"
proof -
  have h1: "arrival_stop example_connection_1 = self_target (example_profiler 2)"
    by (simp add: example_defs)
  have h2: "profile_of (example_profiler 2) (self_target (example_profiler 2))
              = IdentityNodeProfile"
    by (simp add: example_defs)
  have h3: "num_le (Num (arrival_time example_connection_1
                     + self_transfer_margin (example_profiler 2)))
        (trip_of (example_profiler 2) (trip_id example_connection_1))"
    by (simp add: example_defs)
  have v: "arrival_time example_connection_1 + self_transfer_margin (example_profiler 2) = 17"
    by (simp add: example_defs)
  from margin_charged_when_alighting_at_target [OF h1 h2 h3]
  have "spec_best_arrival (example_profiler 2) example_connection_1
          = Num (arrival_time example_connection_1
                   + self_transfer_margin (example_profiler 2))"
    by blast
  then have "spec_best_arrival (example_profiler 2) example_connection_1 = Num 17"
    unfolding v .
  with h1 h2 h3 show ?thesis by blast
qed

text \<open>
  Claim C10. With a nonzero walk speed the sweep runs to its end exactly when no
  connection departs strictly later than the one before it, and otherwise it is the
  assertion that aborts it. A single connection always passes, whatever its departure
  time, and two connections pass exactly when the second departs no later than the
  first, equal times included.
\<close>

theorem order_check_is_non_strict:
  assumes "self_walk_speed s \<noteq> 0"
  shows "is_completed (private_run s) =
           successively (\<lambda>x y. departure_time y \<le> departure_time x) (self_connections s)
       \<and> is_completed (run_loop s PosInf [c])
       \<and> is_completed (run_loop s PosInf [c1, c2]) =
           (departure_time c2 \<le> departure_time c1)
       \<and> (\<forall>e s'. private_run s = Aborted e s' \<longrightarrow> e = AssertionError)"
proof -
  have iff: "is_completed (run_loop s PosInf cs) =
               successively (\<lambda>x y. departure_time y \<le> departure_time x) cs" for cs
    using run_loop_completed_iff [OF assms, of PosInf cs] by simp
  have "is_completed (private_run s) =
           successively (\<lambda>x y. departure_time y \<le> departure_time x) (self_connections s)"
    unfolding private_run_def by (rule iff)
  moreover have "is_completed (run_loop s PosInf [c])"
    unfolding iff by simp
  moreover have "is_completed (run_loop s PosInf [c1, c2]) =
           (departure_time c2 \<le> departure_time c1)"
    unfolding iff by simp
  moreover have "\<forall>e s'. private_run s = Aborted e s' \<longrightarrow> e = AssertionError"
    unfolding private_run_def
    using run_loop_abort_is_assertion [OF assms, of PosInf "self_connections s"] by blast
  ultimately show ?thesis by blast
qed

theorem order_check_is_non_strict_witness:
  "self_walk_speed (example_profiler 0) \<noteq> 0
   \<and> is_completed (private_run (example_profiler 0))
   \<and> is_completed (run_loop (example_profiler 0) PosInf [example_connection_2])
   \<and> is_completed (run_loop (example_profiler 0) PosInf
                       [example_connection_1, example_connection_3])
   \<and> \<not> is_completed (run_loop (example_profiler 0) PosInf
                       [example_connection_2, example_connection_1])"
proof -
  have h: "self_walk_speed (example_profiler 0) \<noteq> 0"
    by (simp add: example_defs)
  note t = order_check_is_non_strict [OF h]
  have s12: "successively (\<lambda>x y. departure_time y \<le> departure_time x)
               (self_connections (example_profiler 0))"
    by (simp add: example_defs)
  have e13: "departure_time example_connection_3 \<le> departure_time example_connection_1"
    by (simp add: example_defs example_connection_3_def)
  have e21: "\<not> departure_time example_connection_1 \<le> departure_time example_connection_2"
    by (simp add: example_defs)
  from t s12 have "is_completed (private_run (example_profiler 0))"
    by blast
  moreover from t have
    "is_completed (run_loop (example_profiler 0) PosInf [example_connection_2])"
    by blast
  moreover from t [of _ example_connection_1 example_connection_3] e13
  have "is_completed (run_loop (example_profiler 0) PosInf
                       [example_connection_1, example_connection_3])"
    by blast
  moreover from t [of _ example_connection_2 example_connection_1] e21
  have "\<not> is_completed (run_loop (example_profiler 0) PosInf
                       [example_connection_2, example_connection_1])"
    by blast
  ultimately show ?thesis using h by blast
qed

end
